theory Spec2Isabelle
  imports Main
begin

section \<open>Python values shared by the scripts\<close>

text \<open>
  Exceptions are values. \<open>ModelRetry\<close> is the exception the scripts raise to send a
  message back to the model; the others are Python's own, or the failures of a
  collaborator that is not part of the scripts.
\<close>

datatype py_error =
    TypeError
  | KeyError
  | AttributeError
  | EOFError
  | ModelRetry string
  | BudgetExceeded
  | RetriesExhausted
  | UnknownCapability
  | EngineUnavailable
  | ExternalFailure string

text \<open>\<open>sep.join(xs)\<close> of Python.\<close>

fun str_join :: "string \<Rightarrow> string list \<Rightarrow> string" where
  "str_join sep [] = []"
| "str_join sep [x] = x"
| "str_join sep (x # y # ys) = x @ sep @ str_join sep (y # ys)"

text \<open>Decimal digits of a natural number, and \<open>%0wd\<close> padding.\<close>

definition digit_char :: "nat \<Rightarrow> char" where
  "digit_char d = ''0123456789'' ! d"

fun str_nat :: "nat \<Rightarrow> string" where
  "str_nat n = (if n < 10 then [digit_char n] else str_nat (n div 10) @ [digit_char (n mod 10)])"

declare str_nat.simps [simp del]

definition zero_pad :: "nat \<Rightarrow> nat \<Rightarrow> string" where
  "zero_pad w n = replicate (w - length (str_nat n)) (CHR ''0'') @ str_nat n"

text \<open>\<open>datetime.date\<close>, and its \<open>str\<close> (the ISO form \<open>YYYY-MM-DD\<close>).\<close>

record py_date =
  year :: nat
  month :: nat
  day :: nat

definition str_date :: "py_date \<Rightarrow> string" where
  "str_date d = zero_pad 4 (year d) @ ''-'' @ zero_pad 2 (month d) @ ''-'' @ zero_pad 2 (day d)"

section \<open>flight_booking.py: the data model\<close>

record FlightDetails =
  flight_number :: string
  price :: int
  origin :: string
  destination :: string
  date :: py_date

text \<open>The result type of the search agent: \<open>FlightDetails | NoFlightFound\<close>.\<close>

datatype search_result = Flight FlightDetails | NoFlightFound

record Deps =
  web_page_text :: "string option"
  req_origin :: string
  req_destination :: string
  req_date :: py_date

section \<open>flight_booking.py: validate_result\<close>

definition origin_message :: "Deps \<Rightarrow> FlightDetails \<Rightarrow> string" where
  "origin_message deps result =
     ''Flight should have origin '' @ req_origin deps @ '', not '' @ origin result"

definition destination_message :: "Deps \<Rightarrow> FlightDetails \<Rightarrow> string" where
  "destination_message deps result =
     ''Flight should have destination '' @ req_destination deps @ '', not '' @ destination result"

definition date_message :: "Deps \<Rightarrow> FlightDetails \<Rightarrow> string" where
  "date_message deps result =
     ''Flight should have date '' @ str_date (req_date deps) @ '', not '' @ str_date (date result)"

text \<open>
  The list \<open>errors\<close> as the three \<open>if\<close> statements of \<open>validate_result\<close> leave it:
  each appends to what the one before left.
\<close>

definition validation_errors :: "Deps \<Rightarrow> FlightDetails \<Rightarrow> string list" where
  "validation_errors deps result =
     (let errors = [];
          errors = (if origin result \<noteq> req_origin deps
                    then errors @ [origin_message deps result] else errors);
          errors = (if destination result \<noteq> req_destination deps
                    then errors @ [destination_message deps result] else errors);
          errors = (if date result \<noteq> req_date deps
                    then errors @ [date_message deps result] else errors)
      in errors)"

definition validate_result :: "Deps \<Rightarrow> search_result \<Rightarrow> py_error + search_result" where
  "validate_result deps result =
     (case result of
        NoFlightFound \<Rightarrow> Inr result
      | Flight f \<Rightarrow>
          (let errors = validation_errors deps f
           in if errors \<noteq> [] then Inl (ModelRetry (str_join [CHR 0x0A] errors))
              else Inr result))"

text \<open>How many of the three constraint fields of a flight differ from the required ones.\<close>

definition mismatches :: "Deps \<Rightarrow> FlightDetails \<Rightarrow> nat" where
  "mismatches deps f =
     (if origin f \<noteq> req_origin deps then 1 else 0)
     + (if destination f \<noteq> req_destination deps then 1 else 0)
     + (if date f \<noteq> req_date deps then 1 else 0)"

section \<open>flight_booking.py: the flights page and the constraints of main\<close>

text \<open>
  \<open>flights_web_page\<close> is a text of eight listings. Each listing is written here as
  the \<open>FlightDetails\<close> it states: the flight number, the price in dollars, the airport
  codes given in parentheses, and the date. The order is that of the text.
\<close>

definition listing_1 :: FlightDetails where
  "listing_1 = \<lparr>flight_number = ''SFO-AK123'', price = 350, origin = ''SFO'',
     destination = ''ANC'', date = \<lparr>year = 2025, month = 1, day = 10\<rparr>\<rparr>"

definition listing_2 :: FlightDetails where
  "listing_2 = \<lparr>flight_number = ''SFO-AK456'', price = 370, origin = ''SFO'',
     destination = ''FAI'', date = \<lparr>year = 2025, month = 1, day = 10\<rparr>\<rparr>"

definition listing_3 :: FlightDetails where
  "listing_3 = \<lparr>flight_number = ''SFO-AK789'', price = 400, origin = ''SFO'',
     destination = ''JNU'', date = \<lparr>year = 2025, month = 1, day = 20\<rparr>\<rparr>"

definition listing_4 :: FlightDetails where
  "listing_4 = \<lparr>flight_number = ''NYC-LA101'', price = 250, origin = ''SFO'',
     destination = ''ANC'', date = \<lparr>year = 2025, month = 1, day = 10\<rparr>\<rparr>"

definition listing_5 :: FlightDetails where
  "listing_5 = \<lparr>flight_number = ''CHI-MIA202'', price = 200, origin = ''ORD'',
     destination = ''MIA'', date = \<lparr>year = 2025, month = 1, day = 12\<rparr>\<rparr>"

definition listing_6 :: FlightDetails where
  "listing_6 = \<lparr>flight_number = ''BOS-SEA303'', price = 120, origin = ''BOS'',
     destination = ''ANC'', date = \<lparr>year = 2025, month = 1, day = 12\<rparr>\<rparr>"

definition listing_7 :: FlightDetails where
  "listing_7 = \<lparr>flight_number = ''DFW-DEN404'', price = 150, origin = ''DFW'',
     destination = ''DEN'', date = \<lparr>year = 2025, month = 1, day = 10\<rparr>\<rparr>"

definition listing_8 :: FlightDetails where
  "listing_8 = \<lparr>flight_number = ''ATL-HOU505'', price = 180, origin = ''ATL'',
     destination = ''IAH'', date = \<lparr>year = 2025, month = 1, day = 10\<rparr>\<rparr>"

definition flights_web_page :: "FlightDetails list" where
  "flights_web_page =
     [listing_1, listing_2, listing_3, listing_4, listing_5, listing_6, listing_7, listing_8]"

text \<open>
  The constraints that the call \<open>Deps(...)\<close> of \<open>main\<close> names: from SFO to ANC on
  2025-01-10, with \<open>web_page_text=None\<close>.
\<close>

definition requested :: Deps where
  "requested = \<lparr>web_page_text = None, req_origin = ''SFO'', req_destination = ''ANC'',
     req_date = \<lparr>year = 2025, month = 1, day = 10\<rparr>\<rparr>"

text \<open>A flight meets the constraints when \<open>validate_result\<close> returns it.\<close>

definition meets_constraints :: "Deps \<Rightarrow> FlightDetails \<Rightarrow> bool" where
  "meets_constraints deps f \<longleftrightarrow> validate_result deps (Flight f) = Inr (Flight f)"

definition matching_flights :: "Deps \<Rightarrow> FlightDetails list \<Rightarrow> FlightDetails list" where
  "matching_flights deps pool = filter (meets_constraints deps) pool"

text \<open>The cheapest price of a list of flights (\<open>None\<close> for the empty list).\<close>

fun cheapest_price :: "FlightDetails list \<Rightarrow> int option" where
  "cheapest_price [] = None"
| "cheapest_price (f # fs) =
     (case cheapest_price fs of None \<Rightarrow> Some (price f) | Some p \<Rightarrow> Some (min (price f) p))"

section \<open>pydantic.py: execute_code\<close>

text \<open>What \<open>riza.command.exec\<close> returns: the exit code and the two output streams.\<close>

record ExecResult =
  exit_code :: int
  stdout :: string
  stderr :: string

definition newline :: string where
  "newline = [CHR 0x0A]"

definition no_output_message :: string where
  "no_output_message =
     ''Code executed successfully but produced no output. ''
     @ ''Ensure your code includes print statements to get output.''"

definition fence :: string where
  "fence = [CHR 0x60, CHR 0x60, CHR 0x60]"

text \<open>
  The sandbox is a collaborator of the script: \<open>exec\<close> stands for
  \<open>riza.command.exec(language="PYTHON", code=code, http=...)\<close> and gives its result,
  or the exception it raised. The second component is what was printed.
\<close>

definition execute_code ::
  "(string \<Rightarrow> py_error + ExecResult) \<Rightarrow> string \<Rightarrow> (py_error + string) \<times> string list" where
  "execute_code exec code =
     (let printed =
        [''Agent wanted to execute this code:'' @ newline @ fence @ newline @ code @ newline @ fence]
      in case exec code of
           Inl e \<Rightarrow> (Inl e, printed)
         | Inr result \<Rightarrow>
             if exit_code result \<noteq> 0 then (Inl (ModelRetry (stderr result)), printed)
             else if stdout result = [] then (Inl (ModelRetry no_output_message), printed)
             else (Inr (stdout result),
                   printed @ [''Execution output:'' @ newline @ fence @ newline
                               @ stdout result @ newline @ fence]))"

section \<open>Calling an object that is not callable\<close>

text \<open>
  Python raises \<open>TypeError\<close> when the object in call position defines no \<open>__call__\<close>.
  A module (as bound by \<open>import datetime\<close>) and a dict (as built by a dict display) are
  such objects, whatever the arguments are.
\<close>

datatype py_object = Module string | Dict "(int \<times> string) list"

fun call_object :: "py_object \<Rightarrow> 'arg list \<Rightarrow> py_error + 'res" where
  "call_object (Module name) args = Inl TypeError"
| "call_object (Dict items) args = Inl TypeError"

text \<open>Sequencing of steps that may raise: the first exception ends the evaluation.\<close>

definition and_then :: "'err + 'x \<Rightarrow> ('x \<Rightarrow> 'err + 'y) \<Rightarrow> 'err + 'y" where
  "and_then r f = case_sum Inl f r"

section \<open>weather_agent.py: get_weather\<close>

text \<open>
  The body of an API response, as \<open>r.json()\<close> gives it. A number that is not an
  integer is kept as its decimal literal, mantissa and exponent of ten.
\<close>

datatype json =
    JInt int
  | JDecimal int int
  | JString string
  | JObject "(string \<times> json) list"

text \<open>\<open>obj[key]\<close> for a string key: a dict without the key raises \<open>KeyError\<close>, a
  number or a string indexed by a string raises \<open>TypeError\<close>.\<close>

fun getitem :: "json \<Rightarrow> string \<Rightarrow> py_error + json" where
  "getitem (JObject items) key = (case map_of items key of None \<Rightarrow> Inl KeyError | Some v \<Rightarrow> Inr v)"
| "getitem (JInt i) key = Inl TypeError"
| "getitem (JDecimal m e) key = Inl TypeError"
| "getitem (JString s) key = Inl TypeError"

record weather_Deps =
  weather_api_key :: "string option"
  geo_api_key :: "string option"

definition code_lookup :: "(int \<times> string) list" where
  "code_lookup =
     [(1000, ''Clear, Sunny''), (1100, ''Mostly Clear''), (1101, ''Partly Cloudy''),
      (1102, ''Mostly Cloudy''), (1001, ''Cloudy''), (2000, ''Foggy''), (2100, ''Light Fog''),
      (4000, ''Drizzle''), (4001, ''Rain''), (4200, ''Light Rain''), (4201, ''Heavy Rain''),
      (5000, ''Snow''), (5001, ''Flurries''), (5100, ''Light Snow''), (5101, ''Heavy Snow''),
      (6000, ''Freezing Drizzle''), (6001, ''Freezing Rain''), (6200, ''Light Freezing Rain''),
      (6201, ''Heavy Freezing Rain''), (7000, ''Ice Pellets''), (7101, ''Heavy Ice Pellets''),
      (7102, ''Light Ice Pellets''), (8000, ''Thunderstorm'')]"

text \<open>The degree-Celsius sign U+2103, as its three UTF-8 bytes.\<close>

definition degree_celsius :: string where
  "degree_celsius = [CHR 0xE2, CHR 0x84, CHR 0x83]"

text \<open>
  \<open>get_weather\<close>. Two collaborators are parameters: \<open>format_0f\<close> is the format
  specification \<open>0.0f\<close> applied to a JSON value (the digits, or the exception for a value
  that is not a number), and \<open>response\<close> is what the request to the weather API
  delivered after \<open>raise_for_status\<close> and \<open>json()\<close>: the body, or the exception
  raised on the way. The dict display of the \<open>return\<close> evaluates its values in order:
  the temperature first, then the description, which calls \<open>code_lookup\<close>.
\<close>

definition get_weather ::
  "(json \<Rightarrow> py_error + string) \<Rightarrow> (py_error + json) \<Rightarrow> weather_Deps
     \<Rightarrow> py_error + (string \<times> string) list" where
  "get_weather format_0f response deps =
     (case weather_api_key deps of
        None \<Rightarrow>
          Inr [(''temperature'', ''21 '' @ degree_celsius),
               (''description'', ''Sunny with a chance of showers'')]
      | Some key \<Rightarrow>
          and_then response (\<lambda>data.
          and_then (getitem data ''data'') (\<lambda>d.
          and_then (getitem d ''values'') (\<lambda>vals.
          and_then (getitem vals ''temperature'') (\<lambda>t.
          and_then (format_0f t) (\<lambda>temperature.
          and_then (getitem vals ''weatherCode'') (\<lambda>code.
          and_then (call_object (Dict code_lookup) [code, JString ''Unknown'']) (\<lambda>description.
            Inr [(''temperature'', temperature @ '' '' @ degree_celsius),
                 (''description'', description)]))))))))"

text \<open>A response of the realtime endpoint: 12 degrees, weather code 1000.\<close>

definition clear_sky_response :: json where
  "clear_sky_response =
     JObject [(''data'', JObject [(''values'',
        JObject [(''temperature'', JInt 12), (''weatherCode'', JInt 1000)])])]"

section \<open>The usage ledger\<close>

text \<open>
  Modelled from the spec: the Usage Ledger of section 4.1. The scripts only construct
  the ledger and its ceiling (\<open>Usage()\<close> and \<open>UsageLimits(request_limit=15)\<close>) and pass
  them on; the classes themselves belong to the pydantic_ai package and are not among
  the scripts. A ledger is its counter of consumed units. \<open>charge\<close> increments the
  counter; \<open>check\<close> fails with \<open>BudgetExceeded\<close> if the counter after the charge would
  exceed the ceiling; \<open>checked_charge\<close> checks before it commits, and gives the outcome
  with the ledger as it is afterwards.
\<close>

definition charge :: "nat \<Rightarrow> nat \<Rightarrow> nat" where
  "charge units counter = counter + units"

definition check :: "nat \<Rightarrow> nat \<Rightarrow> nat \<Rightarrow> py_error + unit" where
  "check ceiling units counter =
     (if counter + units > ceiling then Inl BudgetExceeded else Inr ())"

definition checked_charge :: "nat \<Rightarrow> nat \<Rightarrow> nat \<Rightarrow> (py_error + unit) \<times> nat" where
  "checked_charge ceiling units counter =
     (case check ceiling units counter of
        Inl e \<Rightarrow> (Inl e, counter)
      | Inr ok \<Rightarrow> (Inr (), charge units counter))"

text \<open>A sequence of charges, one after the other; \<open>BudgetExceeded\<close> is fatal and ends it.\<close>

fun charge_all :: "nat \<Rightarrow> nat list \<Rightarrow> nat \<Rightarrow> (py_error + unit) \<times> nat" where
  "charge_all ceiling [] counter = (Inr (), counter)"
| "charge_all ceiling (c # cs) counter =
     (case checked_charge ceiling c counter of
        (Inl e, counter') \<Rightarrow> (Inl e, counter')
      | (Inr ok, counter') \<Rightarrow> charge_all ceiling cs counter')"

text \<open>The ceiling of flight_booking.py: \<open>usage_limits = UsageLimits(request_limit=15)\<close>.\<close>

definition usage_limits :: nat where
  "usage_limits = 15"

section \<open>flight_booking.py: SeatPreference\<close>

definition seat_letters :: "string list" where
  "seat_letters = [''A'', ''B'', ''C'', ''D'', ''E'', ''F'']"

text \<open>
  \<open>SeatPreference\<close> declares \<open>row: int = Field(ge=1, le=30)\<close> and
  \<open>seat: Literal['A', 'B', 'C', 'D', 'E', 'F']\<close>: the type holds the pairs that pass
  these two field constraints.
\<close>

typedef SeatPreference = "{(r :: int, s :: string). 1 \<le> r \<and> r \<le> 30 \<and> s \<in> set seat_letters}"
  by (rule exI [of _ "(1, ''A'')"]) (simp add: seat_letters_def)

setup_lifting type_definition_SeatPreference

lift_definition row :: "SeatPreference \<Rightarrow> int" is fst .

lift_definition seat :: "SeatPreference \<Rightarrow> string" is snd .

text \<open>The result type of the seat agent: \<open>SeatPreference | Failed\<close>.\<close>

datatype seat_result = Seat SeatPreference | Failed

section \<open>The world the scripts act on\<close>

text \<open>What flight_booking.py prints and logs.\<close>

datatype event =
    No_flight_found
  | Flight_found FlightDetails
  | Could_not_understand
  | Purchasing FlightDetails SeatPreference
  | Found_flights nat

text \<open>
  \<open>Usage\<close> objects are shared by reference: \<open>usages\<close> is the store of their
  counters, a reference is an address of it, and \<open>allocated\<close> counts the objects
  made so far. \<open>stdin\<close> holds the lines the caller will type.
\<close>

type_synonym ref = nat

record world =
  usages :: "ref \<Rightarrow> nat"
  allocated :: nat
  printed :: "event list"
  stdin :: "string list"

definition emit :: "event \<Rightarrow> world \<Rightarrow> world" where
  "emit e w = w\<lparr>printed := printed w @ [e]\<rparr>"

text \<open>\<open>Usage()\<close>: a new ledger, its counter at zero.\<close>

definition new_Usage :: "world \<Rightarrow> ref \<times> world" where
  "new_Usage w =
     (allocated w, w\<lparr>usages := (usages w)(allocated w := 0), allocated := Suc (allocated w)\<rparr>)"

text \<open>
  \<open>s.strip()\<close> of Python on a line of ASCII text: the whitespace characters at both
  ends are removed.
\<close>

definition is_space :: "char \<Rightarrow> bool" where
  "is_space c \<longleftrightarrow>
     c \<in> set [CHR 0x09, CHR 0x0A, CHR 0x0B, CHR 0x0C, CHR 0x0D,
                CHR 0x1C, CHR 0x1D, CHR 0x1E, CHR 0x1F, CHR 0x20]"

definition str_strip :: "string \<Rightarrow> string" where
  "str_strip s = rev (dropWhile is_space (rev (dropWhile is_space s)))"

text \<open>
  \<open>Prompt.ask\<close> of the rich package: it strips the next line typed and returns it,
  and with \<open>choices\<close> it asks again until the stripped line is one of them. At the
  end of the input it raises \<open>EOFError\<close>.
\<close>

fun read_choice :: "string list option \<Rightarrow> string list \<Rightarrow> (py_error + string) \<times> string list" where
  "read_choice choices [] = (Inl EOFError, [])"
| "read_choice choices (a # rest) =
     (case choices of
        None \<Rightarrow> (Inr (str_strip a), rest)
      | Some cs \<Rightarrow>
          if str_strip a \<in> set cs then (Inr (str_strip a), rest)
          else read_choice choices rest)"

definition Prompt_ask :: "string list option \<Rightarrow> world \<Rightarrow> (py_error + string) \<times> world" where
  "Prompt_ask choices w =
     (case read_choice choices (stdin w) of (answer, rest) \<Rightarrow> (answer, w\<lparr>stdin := rest\<rparr>))"

section \<open>The turn orchestrator\<close>

text \<open>
  Modelled from the spec: the Turn Orchestrator of section 4.2 with the Capability
  Registry of section 4.4. The scripts configure agents (\<open>Agent(...)\<close>, \<open>retries=4\<close>,
  the tool and validator decorators) and call \<open>run\<close>; the class \<open>Agent\<close> and its
  \<open>run\<close> belong to the pydantic_ai package and are not among the scripts.

  The completion engine is opaque: a function from the history to its response, a
  structured result or capability requests (name and arguments), with the cost it
  reports; or the failure \<open>EngineUnavailable\<close>.
\<close>

datatype 'r engine_answer = StructuredResult 'r | CapabilityRequests "(string \<times> string) list"

record 'r EngineResponse =
  variant :: "'r engine_answer"
  usage_cost :: nat

datatype ('r, 'o) turn_record =
    UserPrompt "string option"
  | EngineTurn "'r engine_answer"
  | CapabilityOutput string 'o
  | CapabilityFailed string py_error
  | RetryFeedback string
  | Corrective string

record 'd RunContext =
  deps :: 'd
  usage :: ref

text \<open>
  A capability handler gets the run context, the arguments and the world; its first
  argument bounds the steps of a run nested in it (\<open>None\<close>: the bound was reached).
\<close>

type_synonym ('d, 'o) handler =
  "nat \<Rightarrow> 'd RunContext \<Rightarrow> string \<Rightarrow> world \<Rightarrow> ((py_error + 'o) \<times> world) option"

record ('d, 'r, 'o) agent =
  engine :: "('r, 'o) turn_record list \<Rightarrow> py_error + 'r EngineResponse"
  registry :: "(string \<times> ('d, 'o) handler) list"
  result_validator :: "'d RunContext \<Rightarrow> 'r \<Rightarrow> py_error + 'r"
  retries :: nat

text \<open>
  Modelled from the spec: the charge of an engine invocation (sections 4.1 and 4.2;
  the code is pydantic_ai's). The ledger is checked and charged at its reference in the
  store, with the cost the engine reported. Without a ceiling the charge is committed
  unchecked.
\<close>

definition charge_ledger :: "nat option \<Rightarrow> ref \<Rightarrow> nat \<Rightarrow> world \<Rightarrow> (py_error + unit) \<times> world" where
  "charge_ledger ceiling u units w =
     (case ceiling of
        None \<Rightarrow> (Inr (), w\<lparr>usages := (usages w)(u := charge units (usages w u))\<rparr>)
      | Some M \<Rightarrow>
          (case checked_charge M units (usages w u) of
             (outcome, counter) \<Rightarrow> (outcome, w\<lparr>usages := (usages w)(u := counter)\<rparr>)))"

text \<open>
  Modelled from the spec: \<open>invoke\<close> of the Capability Registry (section 4.4; the code
  is pydantic_ai's), for the requests of one engine response.
  Each request is looked up in the registry (\<open>UnknownCapability\<close> is fatal) and invoked
  with the context of the run; its output, or its failure as an observation, is
  appended to the history. \<open>BudgetExceeded\<close> of a nested run stays fatal.
\<close>

fun invoke_all ::
  "nat \<Rightarrow> (string \<times> ('d, 'o) handler) list \<Rightarrow> 'd RunContext \<Rightarrow> (string \<times> string) list
     \<Rightarrow> ('r, 'o) turn_record list \<Rightarrow> world
     \<Rightarrow> ((py_error + unit) \<times> ('r, 'o) turn_record list \<times> world) option" where
  "invoke_all fuel reg ctx [] h w = Some (Inr (), h, w)"
| "invoke_all fuel reg ctx ((name, args) # rest) h w =
     (case map_of reg name of
        None \<Rightarrow> Some (Inl UnknownCapability, h, w)
      | Some handler \<Rightarrow>
          (case handler fuel ctx args w of
             None \<Rightarrow> None
           | Some (Inl e, w') \<Rightarrow>
               if e = BudgetExceeded then Some (Inl e, h, w')
               else invoke_all fuel reg ctx rest (h @ [CapabilityFailed name e]) w'
           | Some (Inr out, w') \<Rightarrow>
               invoke_all fuel reg ctx rest (h @ [CapabilityOutput name out]) w'))"

text \<open>
  Modelled from the spec: the state machine of section 4.2 (the code is \<open>Agent.run\<close> of
  pydantic_ai), one "ask until acceptable" cycle. The first argument bounds the number of engine
  invocations; \<open>None\<close> means the bound was reached before the cycle ended. The outcome
  is the accepted result or the failure, with the history and the world as they are
  then. On Retry the feedback is appended and the retry budget decremented; a budget
  that is then exhausted ends the cycle with \<open>RetriesExhausted\<close>.
\<close>

fun turn_orchestrator ::
  "nat \<Rightarrow> ('d, 'r, 'o) agent \<Rightarrow> 'd RunContext \<Rightarrow> nat option \<Rightarrow> ('r, 'o) turn_record list
     \<Rightarrow> nat \<Rightarrow> world \<Rightarrow> ((py_error + 'r) \<times> ('r, 'o) turn_record list \<times> world) option" where
  "turn_orchestrator 0 ag ctx ceiling h budget w = None"
| "turn_orchestrator (Suc fuel) ag ctx ceiling h budget w =
     (case engine ag h of
        Inl e \<Rightarrow> Some (Inl e, h, w)
      | Inr response \<Rightarrow>
          (case charge_ledger ceiling (usage ctx) (usage_cost response) w of
             (Inl e, w1) \<Rightarrow> Some (Inl e, h, w1)
           | (Inr ok, w1) \<Rightarrow>
               (case variant response of
                  CapabilityRequests requests \<Rightarrow>
                    (case invoke_all fuel (registry ag) ctx requests
                            (h @ [EngineTurn (variant response)]) w1 of
                       None \<Rightarrow> None
                     | Some (Inl e, h2, w2) \<Rightarrow> Some (Inl e, h2, w2)
                     | Some (Inr ok, h2, w2) \<Rightarrow> turn_orchestrator fuel ag ctx ceiling h2 budget w2)
                | StructuredResult r \<Rightarrow>
                    (case result_validator ag ctx r of
                       Inr accepted \<Rightarrow> Some (Inr accepted, h @ [EngineTurn (variant response)], w1)
                     | Inl (ModelRetry message) \<Rightarrow>
                         if budget - 1 = 0
                         then Some (Inl RetriesExhausted,
                                    h @ [EngineTurn (variant response), RetryFeedback message], w1)
                         else turn_orchestrator fuel ag ctx ceiling
                                (h @ [EngineTurn (variant response), RetryFeedback message])
                                (budget - 1) w1
                     | Inl e \<Rightarrow> Some (Inl e, h @ [EngineTurn (variant response)], w1)))))"

text \<open>The engine invocations recorded in a history.\<close>

fun is_EngineTurn :: "('r, 'o) turn_record \<Rightarrow> bool" where
  "is_EngineTurn (EngineTurn a) = True"
| "is_EngineTurn t = False"

definition engine_turns :: "('r, 'o) turn_record list \<Rightarrow> nat" where
  "engine_turns h = length (filter is_EngineTurn h)"

text \<open>
  The object a run returns. The scripts read \<open>result.data\<close> and, in flight_booking.py
  (lines 221 and 251), \<open>result.all.messages(...)\<close>; \<open>attribute_all\<close> is what evaluating
  \<open>result.all\<close> gives: an object whose \<open>messages\<close> takes the optional
  \<open>result_tool_return_content\<close>, or the exception raised.
\<close>

record ('r, 'o) RunResult =
  data :: 'r
  messages :: "('r, 'o) turn_record list"
  attribute_all :: "py_error + (string option \<Rightarrow> ('r, 'o) turn_record list)"

text \<open>
  Modelled from the spec: \<open>agent.run(prompt, deps=, usage=, message_history=,
  usage_limits=)\<close> (the code is pydantic_ai's), one cycle of the orchestrator on the
  given history extended by the prompt, charging the ledger passed in. The result
  object offers its messages through the method \<open>all_messages\<close>, as pydantic.py (lines
  58 and 59) calls it: it has no attribute \<open>all\<close>.
\<close>

definition agent_run ::
  "nat \<Rightarrow> ('d, 'r, 'o) agent \<Rightarrow> string option \<Rightarrow> 'd \<Rightarrow> ref \<Rightarrow> ('r, 'o) turn_record list option
     \<Rightarrow> nat option \<Rightarrow> world \<Rightarrow> ((py_error + ('r, 'o) RunResult) \<times> world) option" where
  "agent_run fuel ag prompt d u message_history limits w =
     (case turn_orchestrator fuel ag \<lparr>deps = d, usage = u\<rparr> limits
             ((case message_history of None \<Rightarrow> [] | Some h \<Rightarrow> h) @ [UserPrompt prompt])
             (retries ag) w of
        None \<Rightarrow> None
      | Some (Inl e, h, w') \<Rightarrow> Some (Inl e, w')
      | Some (Inr r, h, w') \<Rightarrow>
          Some (Inr \<lparr>data = r, messages = h, attribute_all = Inl AttributeError\<rparr>, w'))"

section \<open>flight_booking.py: the agents\<close>

type_synonym search_history = "(search_result, FlightDetails list) turn_record list"

type_synonym seat_history = "(seat_result, unit) turn_record list"

text \<open>
  \<open>extraction_agent\<close> and \<open>seat_preference_agent\<close> register no tool and no
  validator, so every structured result is accepted and the retry budget is never
  used. \<open>search_agent\<close> is configured with \<open>retries=4\<close>, the tool \<open>extract_flights\<close> and
  the validator \<open>validate_result\<close>. The engines behind the agents are parameters.
\<close>

definition extraction_agent ::
  "((FlightDetails list, unit) turn_record list \<Rightarrow> py_error + FlightDetails list EngineResponse)
     \<Rightarrow> (unit, FlightDetails list, unit) agent" where
  "extraction_agent eng =
     \<lparr>engine = eng, registry = [], result_validator = (\<lambda>ctx r. Inr r), retries = 1\<rparr>"

text \<open>
  The tool \<open>extract_flights\<close>: it runs the extraction agent on \<open>ctx.deps.web_page_text\<close>
  with \<open>usage=ctx.usage\<close>, the ledger of the run that invoked the tool, and without
  usage limits; it logs the number of flights and returns \<open>result.data\<close>.
\<close>

definition extract_flights ::
  "((FlightDetails list, unit) turn_record list \<Rightarrow> py_error + FlightDetails list EngineResponse)
     \<Rightarrow> (Deps, FlightDetails list) handler" where
  "extract_flights eng fuel ctx args w =
     (case agent_run fuel (extraction_agent eng) (web_page_text (deps ctx)) () (usage ctx)
             None None w of
        None \<Rightarrow> None
      | Some (Inl e, w') \<Rightarrow> Some (Inl e, w')
      | Some (Inr result, w') \<Rightarrow>
          Some (Inr (data result), emit (Found_flights (length (data result))) w'))"

definition search_agent ::
  "(search_history \<Rightarrow> py_error + search_result EngineResponse)
     \<Rightarrow> ((FlightDetails list, unit) turn_record list \<Rightarrow> py_error + FlightDetails list EngineResponse)
     \<Rightarrow> (Deps, search_result, FlightDetails list) agent" where
  "search_agent eng extraction =
     \<lparr>engine = eng,
      registry = [(''extract_flights'', extract_flights extraction)],
      result_validator = (\<lambda>ctx result. validate_result (deps ctx) result),
      retries = 4\<rparr>"

definition seat_preference_agent ::
  "(seat_history \<Rightarrow> py_error + seat_result EngineResponse) \<Rightarrow> (unit, seat_result, unit) agent" where
  "seat_preference_agent eng =
     \<lparr>engine = eng, registry = [], result_validator = (\<lambda>ctx r. Inr r), retries = 1\<rparr>"

section \<open>flight_booking.py: find_seat, buy_tickets and the loop of main\<close>

text \<open>
  In the two loops \<open>run\<close> stands for the \<open>run\<close> of the agent the loop calls, with the
  arguments of \<open>agent_run\<close>. The first argument of a loop bounds its iterations and
  the steps of the runs in it; \<open>None\<close> means the bound was reached.
\<close>

type_synonym ('d, 'r, 'o) run =
  "nat \<Rightarrow> string option \<Rightarrow> 'd \<Rightarrow> ref \<Rightarrow> ('r, 'o) turn_record list option \<Rightarrow> nat option \<Rightarrow> world
     \<Rightarrow> ((py_error + ('r, 'o) RunResult) \<times> world) option"

fun find_seat_loop ::
  "nat \<Rightarrow> (unit, seat_result, unit) run \<Rightarrow> ref \<Rightarrow> seat_history option \<Rightarrow> world
     \<Rightarrow> ((py_error + SeatPreference) \<times> world) option" where
  "find_seat_loop 0 run u message_history w = None"
| "find_seat_loop (Suc fuel) run u message_history w =
     (case Prompt_ask None w of
        (Inl e, w1) \<Rightarrow> Some (Inl e, w1)
      | (Inr a, w1) \<Rightarrow>
          (case run fuel (Some a) () u message_history (Some usage_limits) w1 of
             None \<Rightarrow> None
           | Some (Inl e, w2) \<Rightarrow> Some (Inl e, w2)
           | Some (Inr result, w2) \<Rightarrow>
               (case data result of
                  Seat preference \<Rightarrow> Some (Inr preference, w2)
                | Failed \<Rightarrow>
                    (case attribute_all result of
                       Inl e \<Rightarrow> Some (Inl e, emit Could_not_understand w2)
                     | Inr all_messages \<Rightarrow>
                         find_seat_loop fuel run u (Some (all_messages None))
                           (emit Could_not_understand w2)))))"

definition find_seat ::
  "nat \<Rightarrow> (unit, seat_result, unit) run \<Rightarrow> ref \<Rightarrow> world
     \<Rightarrow> ((py_error + SeatPreference) \<times> world) option" where
  "find_seat fuel run u w = find_seat_loop fuel run u None w"

definition buy_tickets :: "FlightDetails \<Rightarrow> SeatPreference \<Rightarrow> world \<Rightarrow> world" where
  "buy_tickets flight_details st w = emit (Purchasing flight_details st) w"

definition search_prompt :: "Deps \<Rightarrow> string" where
  "search_prompt d =
     ''Find me a flight from '' @ req_origin d @ '' to '' @ req_destination d
     @ '' on '' @ str_date (req_date d)"

text \<open>The \<open>while True\<close> of \<open>main\<close> (lines 197 to 223).\<close>

fun session_loop ::
  "nat \<Rightarrow> (Deps, search_result, FlightDetails list) run \<Rightarrow> (unit, seat_result, unit) run
     \<Rightarrow> Deps \<Rightarrow> ref \<Rightarrow> search_history option \<Rightarrow> world \<Rightarrow> ((py_error + unit) \<times> world) option" where
  "session_loop 0 run seat_run d u message_history w = None"
| "session_loop (Suc fuel) run seat_run d u message_history w =
     (case run fuel (Some (search_prompt d)) d u message_history (Some usage_limits) w of
        None \<Rightarrow> None
      | Some (Inl e, w1) \<Rightarrow> Some (Inl e, w1)
      | Some (Inr result, w1) \<Rightarrow>
          (case data result of
             NoFlightFound \<Rightarrow> Some (Inr (), emit No_flight_found w1)
           | Flight flight \<Rightarrow>
               (case Prompt_ask (Some [''buy'', ''search'', []]) (emit (Flight_found flight) w1) of
                  (Inl e, w2) \<Rightarrow> Some (Inl e, w2)
                | (Inr a, w2) \<Rightarrow>
                    if a = ''buy'' then
                      (case find_seat fuel seat_run u w2 of
                         None \<Rightarrow> None
                       | Some (Inl e, w3) \<Rightarrow> Some (Inl e, w3)
                       | Some (Inr st, w3) \<Rightarrow> Some (Inr (), buy_tickets flight st w3))
                    else
                      (case attribute_all result of
                         Inl e \<Rightarrow> Some (Inl e, w2)
                       | Inr all_messages \<Rightarrow>
                           session_loop fuel run seat_run d u
                             (Some (all_messages (Some ''Please suggest another flight''))) w2))))"

text \<open>
  Lines 194 to 223 of \<open>main\<close>: no history yet, a new \<open>Usage()\<close>, then the loop with
  that one ledger.
\<close>

definition session ::
  "nat \<Rightarrow> (Deps, search_result, FlightDetails list) run \<Rightarrow> (unit, seat_result, unit) run
     \<Rightarrow> Deps \<Rightarrow> world \<Rightarrow> ((py_error + unit) \<times> world) option" where
  "session fuel run seat_run d w =
     (case new_Usage w of (u, w1) \<Rightarrow> session_loop fuel run seat_run d u None w1)"

text \<open>
  Lines 188 to 193 of \<open>main\<close>, the construction of \<open>deps\<close>. The module is imported as
  \<open>import datetime\<close>, and the last argument is written \<open>datetime(2025, 1, 10)\<close>:
  a call of the module.
\<close>

definition main_deps :: "py_error + Deps" where
  "main_deps =
     and_then (call_object (Module ''datetime'') [2025, 1, 10 :: int])
       (\<lambda>date_value. Inr \<lparr>web_page_text = None, req_origin = ''SFO'',
                            req_destination = ''ANC'', req_date = date_value\<rparr>)"

text \<open>A world with nothing allocated, nothing printed, and the given lines to come.\<close>

definition initial_world :: "string list \<Rightarrow> world" where
  "initial_world input = \<lparr>usages = (\<lambda>r. 0), allocated = 0, printed = [], stdin = input\<rparr>"

definition search_agent_run ::
  "(search_history \<Rightarrow> py_error + search_result EngineResponse)
     \<Rightarrow> ((FlightDetails list, unit) turn_record list \<Rightarrow> py_error + FlightDetails list EngineResponse)
     \<Rightarrow> (Deps, search_result, FlightDetails list) run" where
  "search_agent_run eng extraction fuel = agent_run fuel (search_agent eng extraction)"

definition seat_preference_agent_run ::
  "(seat_history \<Rightarrow> py_error + seat_result EngineResponse) \<Rightarrow> (unit, seat_result, unit) run" where
  "seat_preference_agent_run eng fuel = agent_run fuel (seat_preference_agent eng)"

section \<open>Engines for concrete runs\<close>

text \<open>
  Engines used to run the definitions on concrete inputs: one that always answers with
  the same structured result at cost 1, one for the extraction agent that reads the
  eight listings off the page at cost 2, and one that first requests the tool
  \<open>extract_flights\<close> and proposes a flight once the history holds the tool's output.
\<close>

definition always :: "'r \<Rightarrow> ('r, 'o) turn_record list \<Rightarrow> py_error + 'r EngineResponse" where
  "always r h = Inr \<lparr>variant = StructuredResult r, usage_cost = 1\<rparr>"

definition reads_page ::
  "(FlightDetails list, unit) turn_record list \<Rightarrow> py_error + FlightDetails list EngineResponse" where
  "reads_page h = Inr \<lparr>variant = StructuredResult flights_web_page, usage_cost = 2\<rparr>"

fun is_CapabilityOutput :: "('r, 'o) turn_record \<Rightarrow> bool" where
  "is_CapabilityOutput (CapabilityOutput name out) = True"
| "is_CapabilityOutput t = False"

definition extracts_then_proposes ::
  "FlightDetails \<Rightarrow> search_history \<Rightarrow> py_error + search_result EngineResponse" where
  "extracts_then_proposes f h =
     (if list_ex is_CapabilityOutput h
      then Inr \<lparr>variant = StructuredResult (Flight f), usage_cost = 1\<rparr>
      else Inr \<lparr>variant = CapabilityRequests [(''extract_flights'', [])], usage_cost = 1\<rparr>)"

text \<open>A counter value is within a ceiling when there is no ceiling or it does not exceed it.\<close>

definition within_ceiling :: "nat option \<Rightarrow> nat \<Rightarrow> bool" where
  "within_ceiling ceiling n = (case ceiling of None \<Rightarrow> True | Some M \<Rightarrow> n \<le> M)"

text \<open>
  Between two worlds the ledgers grow when no \<open>Usage\<close> object was made and no counter
  went down.
\<close>

definition ledgers_grow :: "world \<Rightarrow> world \<Rightarrow> bool" where
  "ledgers_grow w w' \<longleftrightarrow> allocated w' = allocated w \<and> (\<forall>r. usages w r \<le> usages w' r)"

text \<open>A handler is charging-only when every invocation of it lets the ledgers grow.\<close>

definition charging_only :: "('d, 'o) handler \<Rightarrow> bool" where
  "charging_only hdl \<longleftrightarrow>
     (\<forall>fuel ctx args w res w'. hdl fuel ctx args w = Some (res, w') \<longrightarrow> ledgers_grow w w')"

text \<open>
  The structured results proposed and the capability rounds recorded in a history: the
  engine turns of each kind.
\<close>

fun is_proposal :: "('r, 'o) turn_record \<Rightarrow> bool" where
  "is_proposal (EngineTurn (StructuredResult r)) = True"
| "is_proposal t = False"

definition proposals :: "('r, 'o) turn_record list \<Rightarrow> nat" where
  "proposals h = length (filter is_proposal h)"

fun is_capability_round :: "('r, 'o) turn_record \<Rightarrow> bool" where
  "is_capability_round (EngineTurn (CapabilityRequests requests)) = True"
| "is_capability_round t = False"

definition capability_rounds :: "('r, 'o) turn_record list \<Rightarrow> nat" where
  "capability_rounds h = length (filter is_capability_round h)"

text \<open>
  The search agent with a validator that returns Retry on every call, and two more
  engines for concrete runs: one that requests \<open>extract_flights\<close> as long as the
  history holds no capability round and then proposes a result, and one that requests
  \<open>extract_flights\<close> whatever the history is. Both report cost 1.
\<close>

definition rejecting_agent ::
  "(search_history \<Rightarrow> py_error + search_result EngineResponse)
     \<Rightarrow> ((FlightDetails list, unit) turn_record list \<Rightarrow> py_error + FlightDetails list EngineResponse)
     \<Rightarrow> (Deps, search_result, FlightDetails list) agent" where
  "rejecting_agent eng extraction =
     \<lparr>engine = eng,
      registry = [(''extract_flights'', extract_flights extraction)],
      result_validator = (\<lambda>ctx result. Inl (ModelRetry ''rejected'')),
      retries = 4\<rparr>"

definition requests_once ::
  "search_result \<Rightarrow> search_history \<Rightarrow> py_error + search_result EngineResponse" where
  "requests_once r h =
     (if capability_rounds h = 0
      then Inr \<lparr>variant = CapabilityRequests [(''extract_flights'', [])], usage_cost = 1\<rparr>
      else Inr \<lparr>variant = StructuredResult r, usage_cost = 1\<rparr>)"

definition requests_forever :: "search_history \<Rightarrow> py_error + search_result EngineResponse" where
  "requests_forever h =
     Inr \<lparr>variant = CapabilityRequests [(''extract_flights'', [])], usage_cost = 1\<rparr>"

section \<open>Properties of validate_result\<close>

lemma validation_errors_order:
  "validation_errors d f =
     (if origin f \<noteq> req_origin d then [origin_message d f] else [])
     @ (if destination f \<noteq> req_destination d then [destination_message d f] else [])
     @ (if date f \<noteq> req_date d then [date_message d f] else [])"
  by (simp add: validation_errors_def Let_def)

lemma validation_errors_empty_iff:
  "validation_errors d f = [] \<longleftrightarrow>
     origin f = req_origin d \<and> destination f = req_destination d \<and> date f = req_date d"
  by (simp add: validation_errors_order)

lemma validation_errors_length: "length (validation_errors d f) = mismatches d f"
  by (simp add: validation_errors_order mismatches_def)

text \<open>
  C1. \<open>validate_result\<close> accepts a flight (returns it unchanged) exactly when its origin,
  destination and date all equal the required ones; otherwise it raises \<open>ModelRetry\<close>
  whose text is the list of messages joined by newlines, the list holding one message
  for each mismatched field, origin first, then destination, then date. The result is
  a function of the input, so two runs on one input give the same list.
\<close>

theorem validate_result_accepts_iff_all_fields_match:
  "(validate_result d (Flight f) = Inr (Flight f)
      \<longleftrightarrow> origin f = req_origin d \<and> destination f = req_destination d
          \<and> date f = req_date d)
   \<and> (validate_result d (Flight f) = Inr (Flight f)
       \<or> validate_result d (Flight f)
            = Inl (ModelRetry (str_join [CHR 0x0A] (validation_errors d f))))
   \<and> ((\<exists>e. validate_result d (Flight f) = Inl e) \<longleftrightarrow> validation_errors d f \<noteq> [])
   \<and> length (validation_errors d f) = mismatches d f
   \<and> validation_errors d f =
       (if origin f \<noteq> req_origin d then [origin_message d f] else [])
       @ (if destination f \<noteq> req_destination d then [destination_message d f] else [])
       @ (if date f \<noteq> req_date d then [date_message d f] else [])"
proof -
  have accept: "validate_result d (Flight f) = Inr (Flight f)
      \<longleftrightarrow> validation_errors d f = []"
    by (simp add: validate_result_def Let_def)
  have shape: "validate_result d (Flight f) = Inr (Flight f)
       \<or> validate_result d (Flight f)
            = Inl (ModelRetry (str_join [CHR 0x0A] (validation_errors d f)))"
    by (simp add: validate_result_def Let_def)
  have reject: "(\<exists>e. validate_result d (Flight f) = Inl e) \<longleftrightarrow> validation_errors d f \<noteq> []"
    by (simp add: validate_result_def Let_def)
  show ?thesis
    using accept shape reject validation_errors_empty_iff [of d f]
      validation_errors_length [of d f] validation_errors_order [of d f]
    by blast
qed

lemmas listing_defs =
  listing_1_def listing_2_def listing_3_def listing_4_def
  listing_5_def listing_6_def listing_7_def listing_8_def

lemma str_nat_digit: "n < 10 \<Longrightarrow> str_nat n = [digit_char n]"
  by (simp add: str_nat.simps)

lemma str_date_2025_01_10:
  "str_date \<lparr>year = 2025, month = 1, day = 10\<rparr> = ''2025-01-10''"
  by (simp add: str_date_def zero_pad_def str_nat.simps [of 2025] str_nat.simps [of 202]
      str_nat.simps [of 20] str_nat.simps [of 10] str_nat_digit digit_char_def)

theorem validate_result_accepts_iff_all_fields_match_witness:
  "validate_result requested (Flight listing_1) = Inr (Flight listing_1)
   \<and> validate_result requested (Flight listing_2)
       = Inl (ModelRetry ''Flight should have destination ANC, not FAI'')
   \<and> validation_errors requested listing_2 = [''Flight should have destination ANC, not FAI'']
   \<and> length (validation_errors requested listing_5) = 3"
proof -
  note t1 = validate_result_accepts_iff_all_fields_match [of requested listing_1]
  note t2 = validate_result_accepts_iff_all_fields_match [of requested listing_2]
  note t5 = validate_result_accepts_iff_all_fields_match [of requested listing_5]
  have m1: "origin listing_1 = req_origin requested"
    "destination listing_1 = req_destination requested" "date listing_1 = req_date requested"
    by (simp_all add: requested_def listing_1_def)
  have m2: "origin listing_2 = req_origin requested"
    "destination listing_2 \<noteq> req_destination requested" "date listing_2 = req_date requested"
    by (simp_all add: requested_def listing_2_def)
  have msg: "destination_message requested listing_2
      = ''Flight should have destination ANC, not FAI''"
    by (simp add: destination_message_def requested_def listing_2_def)
  have a: "validate_result requested (Flight listing_1) = Inr (Flight listing_1)"
    using t1 m1 by blast
  have "validation_errors requested listing_2 =
       (if origin listing_2 \<noteq> req_origin requested
        then [origin_message requested listing_2] else [])
       @ (if destination listing_2 \<noteq> req_destination requested
          then [destination_message requested listing_2] else [])
       @ (if date listing_2 \<noteq> req_date requested
          then [date_message requested listing_2] else [])"
    using t2 by blast
  then have e: "validation_errors requested listing_2 = [destination_message requested listing_2]"
    by (simp add: m2)
  have "validate_result requested (Flight listing_2) \<noteq> Inr (Flight listing_2)"
    using t2 m2 by blast
  then have "validate_result requested (Flight listing_2)
      = Inl (ModelRetry (str_join [CHR 0x0A] (validation_errors requested listing_2)))"
    using t2 by blast
  then have r: "validate_result requested (Flight listing_2)
      = Inl (ModelRetry ''Flight should have destination ANC, not FAI'')"
    by (simp add: e msg)
  have k: "mismatches requested listing_5 = 3"
    by (simp add: mismatches_def requested_def listing_5_def)
  have "length (validation_errors requested listing_5) = mismatches requested listing_5"
    using t5 by blast
  then have l: "length (validation_errors requested listing_5) = 3"
    by (simp add: k)
  show ?thesis
    using a r e l by (simp add: msg)
qed

section \<open>The flights that meet the constraints of main\<close>

lemma meets_constraints_iff:
  "meets_constraints d f \<longleftrightarrow>
     origin f = req_origin d \<and> destination f = req_destination d \<and> date f = req_date d"
  by (simp add: meets_constraints_def validate_result_def Let_def validation_errors_empty_iff)

lemma matching_requested:
  "matching_flights requested flights_web_page = [listing_1, listing_4]"
  by (simp add: matching_flights_def flights_web_page_def meets_constraints_iff
      requested_def listing_defs)

text \<open>
  C2, as stated, fails: two listings of the page meet the three constraints, not one,
  and the second of them costs 250.
\<close>

theorem two_listings_meet_the_constraints:
  "length (matching_flights requested flights_web_page) = 2
   \<and> matching_flights requested flights_web_page ! 1 = listing_4
   \<and> validate_result requested (Flight listing_4) = Inr (Flight listing_4)
   \<and> flight_number listing_4 = ''NYC-LA101''
   \<and> price listing_4 = 250"
proof -
  have "meets_constraints requested listing_4"
    by (simp add: meets_constraints_iff requested_def listing_4_def)
  then have "validate_result requested (Flight listing_4) = Inr (Flight listing_4)"
    by (simp add: meets_constraints_def)
  then show ?thesis
    by (simp add: matching_requested) (simp add: listing_4_def)
qed

text \<open>
  C2, amended. With the constraints origin SFO, destination ANC, date 2025-01-10, the
  page holds exactly two flights that meet all three: SFO-AK123 at 350 and NYC-LA101 at
  250. \<open>validate_result\<close> returns each of the two unchanged, and the cheapest of them
  costs 250.
\<close>

theorem page_has_two_matching_flights:
  "matching_flights requested flights_web_page = [listing_1, listing_4]
   \<and> map flight_number (matching_flights requested flights_web_page)
       = [''SFO-AK123'', ''NYC-LA101'']
   \<and> map price (matching_flights requested flights_web_page) = [350, 250]
   \<and> map (validate_result requested) (map Flight (matching_flights requested flights_web_page))
       = [Inr (Flight listing_1), Inr (Flight listing_4)]
   \<and> cheapest_price (matching_flights requested flights_web_page) = Some 250"
proof -
  have m: "meets_constraints requested listing_1" "meets_constraints requested listing_4"
    by (simp_all add: meets_constraints_iff requested_def listing_defs)
  have v: "validate_result requested (Flight listing_1) = Inr (Flight listing_1)"
    "validate_result requested (Flight listing_4) = Inr (Flight listing_4)"
    using m by (simp_all add: meets_constraints_def)
  have p: "flight_number listing_1 = ''SFO-AK123''" "flight_number listing_4 = ''NYC-LA101''"
    "price listing_1 = 350" "price listing_4 = 250"
    by (simp_all add: listing_defs)
  show ?thesis
    by (simp add: matching_requested v p)
qed

section \<open>execute_code\<close>

text \<open>
  C9. \<open>execute_code\<close> returns a string exactly when the sandboxed execution ended with
  exit code 0 and a non-empty stdout, and the string is that stdout; with a non-zero
  exit code it raises \<open>ModelRetry\<close> of stderr, and with exit code 0 and an empty stdout
  it raises \<open>ModelRetry\<close> of the no-output message. So every string it returns is
  non-empty.
\<close>

theorem execute_code_returns_iff_exit_0_and_output:
  "(\<forall>s. fst (execute_code exec code) = Inr s \<longrightarrow>
        s \<noteq> [] \<and> (\<exists>result. exec code = Inr result \<and> exit_code result = 0
                          \<and> stdout result = s))
   \<and> (\<forall>result. exec code = Inr result \<longrightarrow>
        ((\<exists>s. fst (execute_code exec code) = Inr s)
           \<longleftrightarrow> exit_code result = 0 \<and> stdout result \<noteq> [])
        \<and> (exit_code result = 0 \<and> stdout result \<noteq> [] \<longrightarrow>
             fst (execute_code exec code) = Inr (stdout result))
        \<and> (exit_code result \<noteq> 0 \<longrightarrow>
             fst (execute_code exec code) = Inl (ModelRetry (stderr result)))
        \<and> (exit_code result = 0 \<and> stdout result = [] \<longrightarrow>
             fst (execute_code exec code) = Inl (ModelRetry no_output_message)))"
proof (intro conjI allI impI)
  fix s
  assume r: "fst (execute_code exec code) = Inr s"
  then show "s \<noteq> []"
    by (auto simp: execute_code_def Let_def split: sum.splits if_splits)
  from r show "\<exists>result. exec code = Inr result \<and> exit_code result = 0 \<and> stdout result = s"
    by (auto simp: execute_code_def Let_def split: sum.splits if_splits)
next
  fix result
  assume e: "exec code = Inr result"
  show "(\<exists>s. fst (execute_code exec code) = Inr s)
      \<longleftrightarrow> exit_code result = 0 \<and> stdout result \<noteq> []"
    using e by (auto simp: execute_code_def Let_def)
  show "fst (execute_code exec code) = Inr (stdout result)"
    if "exit_code result = 0 \<and> stdout result \<noteq> []"
    using e that by (simp add: execute_code_def Let_def)
  show "fst (execute_code exec code) = Inl (ModelRetry (stderr result))"
    if "exit_code result \<noteq> 0"
    using e that by (simp add: execute_code_def Let_def)
  show "fst (execute_code exec code) = Inl (ModelRetry no_output_message)"
    if "exit_code result = 0 \<and> stdout result = []"
    using e that by (simp add: execute_code_def Let_def)
qed

theorem execute_code_returns_iff_exit_0_and_output_witness:
  "fst (execute_code (\<lambda>c. Inr \<lparr>exit_code = 0, stdout = ''4'', stderr = []\<rparr>) ''print(2 + 2)'')
     = Inr ''4''
   \<and> fst (execute_code (\<lambda>c. Inr \<lparr>exit_code = 1, stdout = [], stderr = ''NameError''\<rparr>) ''x'')
     = Inl (ModelRetry ''NameError'')
   \<and> fst (execute_code (\<lambda>c. Inr \<lparr>exit_code = 0, stdout = [], stderr = []\<rparr>) ''1 + 1'')
     = Inl (ModelRetry no_output_message)"
proof -
  note a = execute_code_returns_iff_exit_0_and_output
    [of "\<lambda>c. Inr \<lparr>exit_code = 0, stdout = ''4'', stderr = []\<rparr>" "''print(2 + 2)''"]
  note b = execute_code_returns_iff_exit_0_and_output
    [of "\<lambda>c. Inr \<lparr>exit_code = 1, stdout = [], stderr = ''NameError''\<rparr>" "''x''"]
  note c = execute_code_returns_iff_exit_0_and_output
    [of "\<lambda>c. Inr \<lparr>exit_code = 0, stdout = [], stderr = []\<rparr>" "''1 + 1''"]
  have 1: "fst (execute_code (\<lambda>c. Inr \<lparr>exit_code = 0, stdout = ''4'', stderr = []\<rparr>)
      ''print(2 + 2)'') = Inr ''4''"
    using a by simp
  have 2: "fst (execute_code (\<lambda>c. Inr \<lparr>exit_code = 1, stdout = [], stderr = ''NameError''\<rparr>)
      ''x'') = Inl (ModelRetry ''NameError'')"
    using b by simp
  have 3: "fst (execute_code (\<lambda>c. Inr \<lparr>exit_code = 0, stdout = [], stderr = []\<rparr>) ''1 + 1'')
     = Inl (ModelRetry no_output_message)"
    using c by simp
  show ?thesis using 1 2 3 by simp
qed

section \<open>get_weather\<close>

lemma get_weather_with_key_raises:
  "weather_api_key d = Some key \<Longrightarrow> \<exists>e. get_weather format_0f response d = Inl e"
  by (auto simp: get_weather_def and_then_def split: sum.splits)

text \<open>
  C10 at a response the weather API can give (12 degrees, code 1000), with an API key
  present: \<open>get_weather\<close> does not return a description; the call of the dict
  \<open>code_lookup\<close> raises \<open>TypeError\<close>.
\<close>

theorem get_weather_raises_TypeError_on_known_code:
  "get_weather (\<lambda>v. Inr ''12'') (Inr clear_sky_response)
     \<lparr>weather_api_key = Some ''key'', geo_api_key = None\<rparr> = Inl TypeError"
  by (simp add: get_weather_def and_then_def clear_sky_response_def)

section \<open>The usage ledger\<close>

lemma checked_charge_cases:
  "checked_charge M u c = (if c + u > M then (Inl BudgetExceeded, c) else (Inr (), c + u))"
  by (simp add: checked_charge_def check_def charge_def)

lemma charge_all_within:
  "(\<forall>k < length cs. c + sum_list (take (Suc k) cs) \<le> M)
     \<Longrightarrow> charge_all M cs c = (Inr (), c + sum_list cs)"
proof (induction cs arbitrary: c)
  case Nil
  then show ?case by simp
next
  case (Cons u us)
  from Cons.prems have first: "c + u \<le> M"
    by (auto dest: spec [of _ 0])
  have "\<forall>k < length us. (c + u) + sum_list (take (Suc k) us) \<le> M"
  proof (intro allI impI)
    fix k assume "k < length us"
    then have "c + sum_list (take (Suc (Suc k)) (u # us)) \<le> M"
      using Cons.prems by (auto simp del: take_Suc_Cons)
    then show "(c + u) + sum_list (take (Suc k) us) \<le> M"
      by (simp add: add.assoc)
  qed
  then have "charge_all M us (c + u) = (Inr (), (c + u) + sum_list us)"
    by (rule Cons.IH)
  with first show ?case
    by (simp add: checked_charge_cases add.assoc)
qed

lemma charge_all_first_excess:
  "k < length cs \<Longrightarrow> (\<forall>j < k. c + sum_list (take (Suc j) cs) \<le> M)
     \<Longrightarrow> c + sum_list (take (Suc k) cs) > M
     \<Longrightarrow> charge_all M cs c = (Inl BudgetExceeded, c + sum_list (take k cs))"
proof (induction cs arbitrary: c k)
  case Nil
  then show ?case by simp
next
  case (Cons u us)
  show ?case
  proof (cases k)
    case 0
    with Cons.prems show ?thesis
      by (simp add: checked_charge_cases)
  next
    case (Suc k')
    from Cons.prems Suc have first: "c + u \<le> M"
      by (auto dest: spec [of _ 0])
    have len: "k' < length us"
      using Cons.prems Suc by simp
    have before: "\<forall>j < k'. (c + u) + sum_list (take (Suc j) us) \<le> M"
    proof (intro allI impI)
      fix j assume "j < k'"
      then have "Suc j < k" using Suc by simp
      then have "c + sum_list (take (Suc (Suc j)) (u # us)) \<le> M"
        using Cons.prems(2) by blast
      then show "(c + u) + sum_list (take (Suc j) us) \<le> M"
        by (simp add: add.assoc)
    qed
    have excess: "(c + u) + sum_list (take (Suc k') us) > M"
      using Cons.prems(3) Suc by (simp add: add.assoc)
    have "charge_all M us (c + u) = (Inl BudgetExceeded, (c + u) + sum_list (take k' us))"
      using len before excess by (rule Cons.IH)
    with first Suc show ?thesis
      by (simp add: checked_charge_cases add.assoc)
  qed
qed

lemma charge_all_fails_iff:
  "(\<exists>e. fst (charge_all M cs c) = Inl e)
     \<longleftrightarrow> (\<exists>k < length cs. c + sum_list (take (Suc k) cs) > M)"
proof
  assume "\<exists>e. fst (charge_all M cs c) = Inl e"
  then have "charge_all M cs c \<noteq> (Inr (), c + sum_list cs)"
    by auto
  then have "\<not> (\<forall>k < length cs. c + sum_list (take (Suc k) cs) \<le> M)"
    using charge_all_within [of cs c M] by blast
  then show "\<exists>k < length cs. c + sum_list (take (Suc k) cs) > M"
    by (auto simp: not_le)
next
  assume "\<exists>k < length cs. c + sum_list (take (Suc k) cs) > M"
  then obtain k where k: "k < length cs \<and> c + sum_list (take (Suc k) cs) > M"
    by blast
  define k0 where "k0 = (LEAST k. k < length cs \<and> c + sum_list (take (Suc k) cs) > M)"
  have k0: "k0 < length cs \<and> c + sum_list (take (Suc k0) cs) > M"
    unfolding k0_def using k by (rule LeastI)
  have "\<forall>j < k0. c + sum_list (take (Suc j) cs) \<le> M"
  proof (intro allI impI)
    fix j assume j: "j < k0"
    then have "\<not> (j < length cs \<and> c + sum_list (take (Suc j) cs) > M)"
      unfolding k0_def by (rule not_less_Least)
    moreover have "j < length cs" using j k0 by simp
    ultimately show "c + sum_list (take (Suc j) cs) \<le> M" by simp
  qed
  then have "charge_all M cs c = (Inl BudgetExceeded, c + sum_list (take k0 cs))"
    using k0 charge_all_first_excess [of k0 cs c M] by blast
  then show "\<exists>e. fst (charge_all M cs c) = Inl e"
    by simp
qed

text \<open>
  C5. A checked charge fails with \<open>BudgetExceeded\<close> exactly when the counter after the
  charge would exceed the ceiling, and then the ledger is as it was; otherwise the
  charge is committed. For a sequence of charges, the run fails exactly when some
  running sum exceeds the ceiling; it fails at the first charge whose running sum
  does, and the ledger then holds the sum of the charges before that one. If no
  running sum exceeds the ceiling, every charge is committed.
\<close>

theorem ledger_check_fails_exactly_at_first_excess:
  "(checked_charge M u c = (Inl BudgetExceeded, c) \<longleftrightarrow> c + u > M)
   \<and> (checked_charge M u c = (Inr (), c + u) \<longleftrightarrow> c + u \<le> M)
   \<and> (\<forall>c'. checked_charge M u c = (Inl BudgetExceeded, c') \<longrightarrow> c' = c)
   \<and> ((\<exists>e. fst (charge_all M cs c) = Inl e)
        \<longleftrightarrow> (\<exists>k < length cs. c + sum_list (take (Suc k) cs) > M))
   \<and> (\<forall>k < length cs.
         (\<forall>j < k. c + sum_list (take (Suc j) cs) \<le> M) \<and> c + sum_list (take (Suc k) cs) > M
         \<longrightarrow> charge_all M cs c = (Inl BudgetExceeded, c + sum_list (take k cs)))
   \<and> ((\<forall>k < length cs. c + sum_list (take (Suc k) cs) \<le> M)
        \<longrightarrow> charge_all M cs c = (Inr (), c + sum_list cs))"
proof (intro conjI)
  show "checked_charge M u c = (Inl BudgetExceeded, c) \<longleftrightarrow> c + u > M"
    by (simp add: checked_charge_cases)
  show "checked_charge M u c = (Inr (), c + u) \<longleftrightarrow> c + u \<le> M"
    by (simp add: checked_charge_cases)
  show "\<forall>c'. checked_charge M u c = (Inl BudgetExceeded, c') \<longrightarrow> c' = c"
    by (simp add: checked_charge_cases)
  show "(\<exists>e. fst (charge_all M cs c) = Inl e)
        \<longleftrightarrow> (\<exists>k < length cs. c + sum_list (take (Suc k) cs) > M)"
    by (rule charge_all_fails_iff)
  show "\<forall>k < length cs.
         (\<forall>j < k. c + sum_list (take (Suc j) cs) \<le> M) \<and> c + sum_list (take (Suc k) cs) > M
         \<longrightarrow> charge_all M cs c = (Inl BudgetExceeded, c + sum_list (take k cs))"
    using charge_all_first_excess [of _ cs c M] by blast
  show "(\<forall>k < length cs. c + sum_list (take (Suc k) cs) \<le> M)
        \<longrightarrow> charge_all M cs c = (Inr (), c + sum_list cs)"
    using charge_all_within [of cs c M] by blast
qed

theorem ledger_check_fails_exactly_at_first_excess_witness:
  "charge_all usage_limits [6, 5, 7, 1] 0 = (Inl BudgetExceeded, 11)
   \<and> checked_charge usage_limits 7 11 = (Inl BudgetExceeded, 11)
   \<and> charge_all usage_limits [6, 5, 4] 0 = (Inr (), 15)"
proof -
  note t = ledger_check_fails_exactly_at_first_excess
    [where M = usage_limits and u = 7 and c = 0 and cs = "[6, 5, 7, 1]"]
  note t' = ledger_check_fails_exactly_at_first_excess
    [where M = usage_limits and u = 4 and c = 0 and cs = "[6, 5, 4]"]
  note s = ledger_check_fails_exactly_at_first_excess
    [where M = usage_limits and u = 7 and c = 11 and cs = "[]"]
  have before: "\<forall>j < 2. 0 + sum_list (take (Suc j) [6, 5, 7, 1::nat]) \<le> usage_limits"
  proof (intro allI impI)
    fix j :: nat assume "j < 2"
    then have "j = 0 \<or> j = 1" by arith
    then show "0 + sum_list (take (Suc j) [6, 5, 7, 1::nat]) \<le> usage_limits"
      by (auto simp: usage_limits_def)
  qed
  have excess: "0 + sum_list (take (Suc 2) [6, 5, 7, 1::nat]) > usage_limits"
    by (simp add: usage_limits_def numeral_2_eq_2)
  have "\<forall>k < length [6, 5, 7, 1::nat].
         (\<forall>j < k. 0 + sum_list (take (Suc j) [6, 5, 7, 1]) \<le> usage_limits)
           \<and> 0 + sum_list (take (Suc k) [6, 5, 7, 1]) > usage_limits
         \<longrightarrow> charge_all usage_limits [6, 5, 7, 1] 0
              = (Inl BudgetExceeded, 0 + sum_list (take k [6, 5, 7, 1]))"
    using t by blast
  then have "2 < length [6, 5, 7, 1::nat] \<longrightarrow>
         (\<forall>j < 2. 0 + sum_list (take (Suc j) [6, 5, 7, 1]) \<le> usage_limits)
           \<and> 0 + sum_list (take (Suc 2) [6, 5, 7, 1]) > usage_limits
         \<longrightarrow> charge_all usage_limits [6, 5, 7, 1] 0
              = (Inl BudgetExceeded, 0 + sum_list (take 2 [6, 5, 7, 1]))"
    by (rule spec)
  moreover have "2 < length [6, 5, 7, 1::nat]"
    by simp
  ultimately have "charge_all usage_limits [6, 5, 7, 1] 0
      = (Inl BudgetExceeded, 0 + sum_list (take 2 [6, 5, 7, 1]))"
    using before excess by blast
  then have a: "charge_all usage_limits [6, 5, 7, 1] 0 = (Inl BudgetExceeded, 11)"
    by (simp add: numeral_2_eq_2)
  have "checked_charge usage_limits 7 11 = (Inl BudgetExceeded, 11) \<longleftrightarrow> 11 + 7 > usage_limits"
    using s by blast
  then have b: "checked_charge usage_limits 7 11 = (Inl BudgetExceeded, 11)"
    by (simp add: usage_limits_def)
  have within: "\<forall>k < length [6, 5, 4::nat]. 0 + sum_list (take (Suc k) [6, 5, 4]) \<le> usage_limits"
  proof (intro allI impI)
    fix k :: nat assume "k < length [6, 5, 4::nat]"
    then have "k = 0 \<or> k = 1 \<or> k = 2" by auto
    then show "0 + sum_list (take (Suc k) [6, 5, 4::nat]) \<le> usage_limits"
      by (auto simp: usage_limits_def numeral_2_eq_2)
  qed
  have "(\<forall>k < length [6, 5, 4::nat]. 0 + sum_list (take (Suc k) [6, 5, 4]) \<le> usage_limits)
        \<longrightarrow> charge_all usage_limits [6, 5, 4] 0 = (Inr (), 0 + sum_list [6, 5, 4])"
    using t' by blast
  then have c: "charge_all usage_limits [6, 5, 4] 0 = (Inr (), 15)"
    using within by simp
  show ?thesis using a b c by simp
qed

section \<open>The failure variant\<close>


lemma validate_result_NoFlightFound: "validate_result d NoFlightFound = Inr NoFlightFound"
  by (simp add: validate_result_def)

text \<open>
  C6. \<open>validate_result\<close> returns \<open>NoFlightFound\<close> as it is, whatever the constraints
  are. In the loop of \<open>main\<close>, when the run of the search agent yields
  \<open>NoFlightFound\<close>, the iteration prints "No flight found" and the loop ends normally:
  the world is the one the run left, with that one line added; nothing is asked of the
  caller and no further run is made.
\<close>

theorem NoFlightFound_is_accepted_and_ends_the_loop:
  "validate_result d NoFlightFound = Inr NoFlightFound
   \<and> (\<forall>result w1.
        run fuel (Some (search_prompt d)) d u mh (Some usage_limits) w = Some (Inr result, w1)
          \<and> data result = NoFlightFound
        \<longrightarrow> session_loop (Suc fuel) run seat_run d u mh w
              = Some (Inr (), emit No_flight_found w1))"
  by (simp add: validate_result_NoFlightFound)

theorem NoFlightFound_is_accepted_and_ends_the_loop_witness:
  "validate_result requested NoFlightFound = Inr NoFlightFound
   \<and> session (Suc (Suc 0)) (search_agent_run (always NoFlightFound) reads_page)
       (seat_preference_agent_run (always Failed)) requested (initial_world [])
     = Some (Inr (), \<lparr>usages = (\<lambda>r. 0)(0 := 1), allocated = 1,
                       printed = [No_flight_found], stdin = []\<rparr>)"
proof -
  define w0 where "w0 = snd (new_Usage (initial_world []))"
  define w1 where "w1 = \<lparr>usages = (\<lambda>r. 0)(0 := 1::nat), allocated = 1, printed = [], stdin = []\<rparr>"
  define result :: "(search_result, FlightDetails list) RunResult" where
    "result = \<lparr>data = NoFlightFound,
       messages = [UserPrompt (Some (search_prompt requested)),
                   EngineTurn (StructuredResult NoFlightFound)],
       attribute_all = Inl AttributeError\<rparr>"
  have run: "search_agent_run (always NoFlightFound) reads_page (Suc 0)
      (Some (search_prompt requested)) requested 0 None (Some usage_limits) w0
      = Some (Inr result, w1)"
    by (simp add: search_agent_run_def agent_run_def search_agent_def always_def
        charge_ledger_def checked_charge_def check_def charge_def usage_limits_def
        validate_result_def new_Usage_def initial_world_def w0_def w1_def result_def)
  have d: "data result = NoFlightFound"
    by (simp add: result_def)
  note t = NoFlightFound_is_accepted_and_ends_the_loop
    [of requested "search_agent_run (always NoFlightFound) reads_page" "Suc 0" 0 None w0
      "seat_preference_agent_run (always Failed)"]
  have loop: "session_loop (Suc (Suc 0)) (search_agent_run (always NoFlightFound) reads_page)
      (seat_preference_agent_run (always Failed)) requested 0 None w0
      = Some (Inr (), emit No_flight_found w1)"
    using t run d by blast
  have new: "new_Usage (initial_world []) = (0, w0)"
    by (simp add: new_Usage_def initial_world_def w0_def)
  have "session (Suc (Suc 0)) (search_agent_run (always NoFlightFound) reads_page)
       (seat_preference_agent_run (always Failed)) requested (initial_world [])
     = Some (Inr (), emit No_flight_found w1)"
    by (simp only: session_def new prod.case loop)
  then show ?thesis
    using t by (simp add: emit_def w1_def)
qed

section \<open>The retry bound of the orchestrator\<close>


lemma engine_turns_append [simp]: "engine_turns (h @ h') = engine_turns h + engine_turns h'"
  by (simp add: engine_turns_def)

lemma engine_turns_simps [simp]:
  "engine_turns [] = 0"
  "engine_turns (EngineTurn a # h) = Suc (engine_turns h)"
  "engine_turns (RetryFeedback m # h) = engine_turns h"
  "engine_turns (UserPrompt p # h) = engine_turns h"
  "engine_turns (CapabilityOutput n out # h) = engine_turns h"
  "engine_turns (CapabilityFailed n e # h) = engine_turns h"
  "engine_turns (Corrective c # h) = engine_turns h"
  by (simp_all add: engine_turns_def)

lemma within_ceiling_le: "within_ceiling ceiling n \<Longrightarrow> m \<le> n \<Longrightarrow> within_ceiling ceiling m"
  by (cases ceiling) (simp_all add: within_ceiling_def)

lemma charge_ledger_within:
  "within_ceiling ceiling (usages w u + c) \<Longrightarrow>
   charge_ledger ceiling u c w = (Inr (), w\<lparr>usages := (usages w)(u := usages w u + c)\<rparr>)"
  by (cases ceiling)
    (simp_all add: within_ceiling_def charge_ledger_def checked_charge_cases charge_def)

lemma always_retry_exhausts:
  assumes eng: "\<forall>h. \<exists>r c m. engine ag h = Inr \<lparr>variant = StructuredResult r, usage_cost = c\<rparr>
                  \<and> c \<le> k \<and> result_validator ag ctx r = Inl (ModelRetry m)"
  shows "1 \<le> b \<Longrightarrow> b \<le> fuel
     \<Longrightarrow> within_ceiling ceiling (usages w (usage ctx) + b * k)
     \<Longrightarrow> \<exists>h' w'. turn_orchestrator fuel ag ctx ceiling h b w = Some (Inl RetriesExhausted, h', w')
           \<and> engine_turns h' = engine_turns h + b"
proof (induction fuel arbitrary: b h w)
  case 0
  then show ?case by simp
next
  case (Suc fuel)
  from eng obtain r c m where
    e: "engine ag h = Inr \<lparr>variant = StructuredResult r, usage_cost = c\<rparr>"
    and c: "c \<le> k" and v: "result_validator ag ctx r = Inl (ModelRetry m)"
    by blast
  define w1 where "w1 = w\<lparr>usages := (usages w)(usage ctx := usages w (usage ctx) + c)\<rparr>"
  have "c \<le> b * k"
    using c Suc.prems(1) by (cases b) simp_all
  then have "within_ceiling ceiling (usages w (usage ctx) + c)"
    using Suc.prems(3) by (auto elim: within_ceiling_le)
  then have ch: "charge_ledger ceiling (usage ctx) c w = (Inr (), w1)"
    unfolding w1_def by (rule charge_ledger_within)
  show ?case
  proof (cases "b - 1 = 0")
    case True
    then have "b = 1" using Suc.prems(1) by simp
    then show ?thesis
      using e v ch by simp
  next
    case False
    have b1: "1 \<le> b - 1" "b - 1 \<le> fuel"
      using False Suc.prems(2) by simp_all
    have "(b - 1) * k + c \<le> b * k"
      using c Suc.prems(1) by (cases b) simp_all
    then have "usages w1 (usage ctx) + (b - 1) * k \<le> usages w (usage ctx) + b * k"
      by (simp add: w1_def)
    then have room: "within_ceiling ceiling (usages w1 (usage ctx) + (b - 1) * k)"
      using Suc.prems(3) by (auto elim: within_ceiling_le)
    from Suc.IH [OF b1 room]
    obtain h' w' where
      "turn_orchestrator fuel ag ctx ceiling
         (h @ [EngineTurn (StructuredResult r), RetryFeedback m]) (b - 1) w1
       = Some (Inl RetriesExhausted, h', w')"
      and "engine_turns h' = engine_turns (h @ [EngineTurn (StructuredResult r), RetryFeedback m]) + (b - 1)"
      by blast
    then show ?thesis
      using e v ch False Suc.prems(1) by simp
  qed
qed


section \<open>The ledgers of a session\<close>


lemma ledgers_grow_refl [simp]: "ledgers_grow w w"
  by (simp add: ledgers_grow_def)

lemma ledgers_grow_trans: "ledgers_grow w w1 \<Longrightarrow> ledgers_grow w1 w2 \<Longrightarrow> ledgers_grow w w2"
  by (auto simp: ledgers_grow_def intro: le_trans)

lemma ledgers_grow_emit [simp]: "ledgers_grow w (emit e w')  \<longleftrightarrow> ledgers_grow w w'"
  by (simp add: ledgers_grow_def emit_def)

lemma ledgers_grow_Prompt_ask: "Prompt_ask choices w = (a, w1) \<Longrightarrow> ledgers_grow w w1"
  by (auto simp: Prompt_ask_def ledgers_grow_def split: prod.splits)

lemma ledgers_grow_charge_ledger: "charge_ledger ceiling u c w = (res, w1) \<Longrightarrow> ledgers_grow w w1"
  by (cases ceiling)
    (auto simp: charge_ledger_def checked_charge_cases charge_def ledgers_grow_def
      split: if_splits)

lemma invoke_all_grows:
  assumes hs: "\<forall>name hdl. map_of reg name = Some hdl \<longrightarrow> charging_only hdl"
  shows "invoke_all fuel reg ctx requests h w = Some (res, h', w') \<Longrightarrow> ledgers_grow w w'"
proof (induction requests arbitrary: h w)
  case Nil
  then show ?case by simp
next
  case (Cons req rest)
  obtain name args where req: "req = (name, args)" by (cases req)
  show ?case
  proof (cases "map_of reg name")
    case None
    with Cons.prems req show ?thesis by simp
  next
    case (Some hdl)
    with hs have co: "charging_only hdl" by blast
    show ?thesis
    proof (cases "hdl fuel ctx args w")
      case None
      with Cons.prems req Some show ?thesis by simp
    next
      case (Some out)
      obtain r w1 where out: "out = (r, w1)" by (cases out)
      have g1: "ledgers_grow w w1"
        using co Some out by (auto simp: charging_only_def)
      show ?thesis
      proof (cases r)
        case (Inl e)
        show ?thesis
        proof (cases "e = BudgetExceeded")
          case True
          with Cons.prems req \<open>map_of reg name = Some hdl\<close> Some out Inl g1 show ?thesis
            by simp
        next
          case False
          with Cons.prems req \<open>map_of reg name = Some hdl\<close> Some out Inl
          have "invoke_all fuel reg ctx rest (h @ [CapabilityFailed name e]) w1 = Some (res, h', w')"
            by simp
          then have "ledgers_grow w1 w'" by (rule Cons.IH)
          with g1 show ?thesis by (rule ledgers_grow_trans)
        qed
      next
        case (Inr o1)
        with Cons.prems req \<open>map_of reg name = Some hdl\<close> Some out
        have "invoke_all fuel reg ctx rest (h @ [CapabilityOutput name o1]) w1 = Some (res, h', w')"
          by simp
        then have "ledgers_grow w1 w'" by (rule Cons.IH)
        with g1 show ?thesis by (rule ledgers_grow_trans)
      qed
    qed
  qed
qed

lemma turn_orchestrator_grows:
  assumes hs: "\<forall>name hdl. map_of (registry ag) name = Some hdl \<longrightarrow> charging_only hdl"
  shows "turn_orchestrator fuel ag ctx ceiling h b w = Some (res, h', w') \<Longrightarrow> ledgers_grow w w'"
proof (induction fuel arbitrary: h b w)
  case 0
  then show ?case by simp
next
  case (Suc fuel)
  show ?case
  proof (cases "engine ag h")
    case (Inl e)
    with Suc.prems show ?thesis by simp
  next
    case (Inr response)
    obtain c1 w1 where ch: "charge_ledger ceiling (usage ctx) (usage_cost response) w = (c1, w1)"
      by (cases "charge_ledger ceiling (usage ctx) (usage_cost response) w")
    then have g1: "ledgers_grow w w1" by (rule ledgers_grow_charge_ledger)
    show ?thesis
    proof (cases c1)
      case (Inl e)
      with Suc.prems Inr ch g1 show ?thesis by simp
    next
      case ok: (Inr x)
      show ?thesis
      proof (cases "variant response")
        case (CapabilityRequests requests)
        show ?thesis
        proof (cases "invoke_all fuel (registry ag) ctx requests
                        (h @ [EngineTurn (variant response)]) w1")
          case None
          with Suc.prems Inr ch ok CapabilityRequests show ?thesis by simp
        next
          case (Some out)
          obtain r2 h2 w2 where out: "out = (r2, h2, w2)" by (cases out)
          have g2: "ledgers_grow w1 w2"
            using invoke_all_grows [OF hs] Some out by blast
          show ?thesis
          proof (cases r2)
            case (Inl e)
            with Suc.prems Inr ch ok CapabilityRequests Some out
            have "w' = w2" by simp
            with g1 g2 show ?thesis by (auto intro: ledgers_grow_trans)
          next
            case r2: (Inr y)
            with Suc.prems Inr ch ok CapabilityRequests Some out
            have "turn_orchestrator fuel ag ctx ceiling h2 b w2 = Some (res, h', w')"
              by simp
            then have "ledgers_grow w2 w'" by (rule Suc.IH)
            with g1 g2 show ?thesis by (auto intro: ledgers_grow_trans)
          qed
        qed
      next
        case (StructuredResult r)
        show ?thesis
        proof (cases "result_validator ag ctx r")
          case acc: (Inr accepted)
          with Suc.prems Inr ch ok StructuredResult g1 show ?thesis by simp
        next
          case rej: (Inl e)
          show ?thesis
          proof (cases "\<exists>m. e = ModelRetry m")
            case False
            with Suc.prems Inr ch ok StructuredResult rej have "w' = w1"
              by (cases e) simp_all
            with g1 show ?thesis by simp
          next
            case True
            then obtain m where m: "e = ModelRetry m" by blast
            show ?thesis
            proof (cases "b - 1 = 0")
              case True
              with Suc.prems Inr ch ok StructuredResult rej m have "w' = w1" by simp
              with g1 show ?thesis by simp
            next
              case False
              with Suc.prems Inr ch ok StructuredResult rej m
              have "turn_orchestrator fuel ag ctx ceiling
                  (h @ [EngineTurn (variant response), RetryFeedback m]) (b - 1) w1
                  = Some (res, h', w')"
                by simp
              then have "ledgers_grow w1 w'" by (rule Suc.IH)
              with g1 show ?thesis by (rule ledgers_grow_trans)
            qed
          qed
        qed
      qed
    qed
  qed
qed

lemma agent_run_grows:
  assumes hs: "\<forall>name hdl. map_of (registry ag) name = Some hdl \<longrightarrow> charging_only hdl"
  shows "agent_run fuel ag prompt d u mh limits w = Some (res, w') \<Longrightarrow> ledgers_grow w w'"
  using turn_orchestrator_grows [OF hs]
  by (auto simp: agent_run_def split: option.splits prod.splits sum.splits)

lemma extract_flights_charging_only: "charging_only (extract_flights extraction)"
  unfolding charging_only_def
proof (intro allI impI)
  fix fuel ctx args w res w'
  assume a: "extract_flights extraction fuel ctx args w = Some (res, w')"
  have none: "\<forall>name hdl. map_of (registry (extraction_agent extraction)) name = Some hdl
      \<longrightarrow> charging_only hdl"
    by (simp add: extraction_agent_def)
  show "ledgers_grow w w'"
    using a agent_run_grows [OF none]
    by (auto simp: extract_flights_def split: option.splits prod.splits sum.splits)
qed

lemma search_agent_run_grows:
  "search_agent_run eng extraction fuel prompt d u mh limits w = Some (res, w')
     \<Longrightarrow> ledgers_grow w w'"
proof -
  have "\<forall>name hdl. map_of (registry (search_agent eng extraction)) name = Some hdl
      \<longrightarrow> charging_only hdl"
    by (simp add: search_agent_def extract_flights_charging_only)
  then show "search_agent_run eng extraction fuel prompt d u mh limits w = Some (res, w')
     \<Longrightarrow> ledgers_grow w w'"
    unfolding search_agent_run_def by (rule agent_run_grows)
qed

lemma seat_preference_agent_run_grows:
  "seat_preference_agent_run eng fuel prompt d u mh limits w = Some (res, w')
     \<Longrightarrow> ledgers_grow w w'"
proof -
  have "\<forall>name hdl. map_of (registry (seat_preference_agent eng)) name = Some hdl
      \<longrightarrow> charging_only hdl"
    by (simp add: seat_preference_agent_def)
  then show "seat_preference_agent_run eng fuel prompt d u mh limits w = Some (res, w')
     \<Longrightarrow> ledgers_grow w w'"
    unfolding seat_preference_agent_run_def by (rule agent_run_grows)
qed


lemma find_seat_loop_grows:
  assumes run: "\<forall>fuel p d u mh l w res w'. run fuel p d u mh l w = Some (res, w') \<longrightarrow> ledgers_grow w w'"
  shows "find_seat_loop fuel run u mh w = Some (res, w') \<Longrightarrow> ledgers_grow w w'"
proof (induction fuel arbitrary: mh w)
  case 0
  then show ?case by simp
next
  case (Suc fuel)
  obtain a w1 where ask: "Prompt_ask None w = (a, w1)"
    by (cases "Prompt_ask None w")
  then have g1: "ledgers_grow w w1" by (rule ledgers_grow_Prompt_ask)
  show ?case
  proof (cases a)
    case (Inl e)
    with Suc.prems ask g1 show ?thesis by simp
  next
    case (Inr line)
    show ?thesis
    proof (cases "run fuel (Some line) () u mh (Some usage_limits) w1")
      case None
      with Suc.prems ask Inr show ?thesis by simp
    next
      case (Some out)
      obtain r w2 where out: "out = (r, w2)" by (cases out)
      have g2: "ledgers_grow w w2"
        using run Some out g1 by (blast intro: ledgers_grow_trans)
      show ?thesis
      proof (cases r)
        case failed: (Inl e)
        with Suc.prems ask Inr Some out g2 show ?thesis by simp
      next
        case ok: (Inr result)
        show ?thesis
        proof (cases "data result")
          case (Seat preference)
          with Suc.prems ask Inr Some out ok g2 show ?thesis by simp
        next
          case Failed
          show ?thesis
          proof (cases "attribute_all result")
            case no: (Inl e)
            with Suc.prems ask Inr Some out ok Failed g2 show ?thesis by auto
          next
            case yes: (Inr all_messages)
            with Suc.prems ask Inr Some out ok Failed
            have "find_seat_loop fuel run u (Some (all_messages None))
                (emit Could_not_understand w2) = Some (res, w')"
              by simp
            then have "ledgers_grow (emit Could_not_understand w2) w'" by (rule Suc.IH)
            moreover have "ledgers_grow w (emit Could_not_understand w2)"
              using g2 by simp
            ultimately show ?thesis by (blast intro: ledgers_grow_trans)
          qed
        qed
      qed
    qed
  qed
qed

lemma session_loop_grows:
  assumes run: "\<forall>fuel p d u mh l w res w'. run fuel p d u mh l w = Some (res, w') \<longrightarrow> ledgers_grow w w'"
    and seat_run: "\<forall>fuel p d u mh l w res w'. seat_run fuel p d u mh l w = Some (res, w')
          \<longrightarrow> ledgers_grow w w'"
  shows "session_loop fuel run seat_run d u mh w = Some (res, w') \<Longrightarrow> ledgers_grow w w'"
proof (induction fuel arbitrary: mh w)
  case 0
  then show ?case by simp
next
  case (Suc fuel)
  show ?case
  proof (cases "run fuel (Some (search_prompt d)) d u mh (Some usage_limits) w")
    case None
    with Suc.prems show ?thesis by simp
  next
    case (Some out)
    obtain r w1 where out: "out = (r, w1)" by (cases out)
    have g1: "ledgers_grow w w1"
      using run Some out by blast
    show ?thesis
    proof (cases r)
      case failed: (Inl e)
      with Suc.prems Some out g1 show ?thesis by simp
    next
      case ok: (Inr result)
      show ?thesis
      proof (cases "data result")
        case NoFlightFound
        with Suc.prems Some out ok g1 show ?thesis by auto
      next
        case (Flight flight)
        obtain a w2 where ask: "Prompt_ask (Some [''buy'', ''search'', []])
            (emit (Flight_found flight) w1) = (a, w2)"
          by (cases "Prompt_ask (Some [''buy'', ''search'', []]) (emit (Flight_found flight) w1)")
        then have "ledgers_grow (emit (Flight_found flight) w1) w2"
          by (rule ledgers_grow_Prompt_ask)
        moreover have "ledgers_grow w (emit (Flight_found flight) w1)"
          using g1 by simp
        ultimately have g2: "ledgers_grow w w2"
          by (blast intro: ledgers_grow_trans)
        show ?thesis
        proof (cases a)
          case eof: (Inl e)
          with Suc.prems Some out ok Flight ask g2 show ?thesis by simp
        next
          case line: (Inr choice)
          show ?thesis
          proof (cases "choice = ''buy''")
            case True
            show ?thesis
            proof (cases "find_seat fuel seat_run u w2")
              case None
              with Suc.prems Some out ok Flight ask line True show ?thesis by simp
            next
              case found: (Some out3)
              obtain r3 w3 where out3: "out3 = (r3, w3)" by (cases out3)
              have "ledgers_grow w2 w3"
                using find_seat_loop_grows [OF seat_run] found out3
                by (simp add: find_seat_def)
              with g2 have g3: "ledgers_grow w w3"
                by (blast intro: ledgers_grow_trans)
              show ?thesis
              proof (cases r3)
                case (Inl e)
                with Suc.prems Some out ok Flight ask line True found out3 g3
                show ?thesis by simp
              next
                case (Inr st)
                with Suc.prems Some out ok Flight ask line True found out3
                have "w' = buy_tickets flight st w3" by simp
                with g3 show ?thesis by (simp add: buy_tickets_def)
              qed
            qed
          next
            case False
            show ?thesis
            proof (cases "attribute_all result")
              case no: (Inl e)
              with Suc.prems Some out ok Flight ask line False g2 show ?thesis by simp
            next
              case yes: (Inr all_messages)
              with Suc.prems Some out ok Flight ask line False
              have "session_loop fuel run seat_run d u
                  (Some (all_messages (Some ''Please suggest another flight''))) w2
                  = Some (res, w')"
                by simp
              then have "ledgers_grow w2 w'" by (rule Suc.IH)
              with g2 show ?thesis by (blast intro: ledgers_grow_trans)
            qed
          qed
        qed
      qed
    qed
  qed
qed

lemma extract_flights_one_answer:
  assumes "extraction [UserPrompt (web_page_text (deps ctx))]
      = Inr \<lparr>variant = StructuredResult flights, usage_cost = c\<rparr>"
  shows "extract_flights extraction (Suc fuel) ctx args w
      = Some (Inr flights, emit (Found_flights (length flights))
               (w\<lparr>usages := (usages w)(usage ctx := usages w (usage ctx) + c)\<rparr>))"
  using assms
  by (simp add: extract_flights_def agent_run_def extraction_agent_def charge_ledger_def
      charge_def)

text \<open>
  C4. No ledger counter decreases and no new ledger is made by a run of the search
  agent, nor by the whole loop of \<open>main\<close> with its runs of the search agent and of
  the seat agent, which all get the one reference \<open>u\<close>. The tool \<open>extract_flights\<close>
  hands the reference of the run that invoked it to the nested run of the extraction
  agent: when the extraction engine answers at cost \<open>c\<close>, exactly the counter at
  \<open>usage ctx\<close> grows by \<open>c\<close>. A charge never lowers a counter.
\<close>

theorem usage_ledger_is_shared_and_never_decreases:
  "(\<forall>res w'. search_agent_run eng extraction fuel prompt d u mh limits w = Some (res, w')
       \<longrightarrow> allocated w' = allocated w \<and> (\<forall>r. usages w r \<le> usages w' r))
   \<and> (\<forall>res w'. session_loop fuel (search_agent_run eng extraction)
                    (seat_preference_agent_run seat_eng) d u mh w = Some (res, w')
       \<longrightarrow> allocated w' = allocated w \<and> (\<forall>r. usages w r \<le> usages w' r))
   \<and> (\<forall>flights c. extraction [UserPrompt (web_page_text (deps ctx))]
                      = Inr \<lparr>variant = StructuredResult flights, usage_cost = c\<rparr>
       \<longrightarrow> extract_flights extraction (Suc fuel) ctx args w
            = Some (Inr flights, emit (Found_flights (length flights))
                     (w\<lparr>usages := (usages w)(usage ctx := usages w (usage ctx) + c)\<rparr>)))
   \<and> counter \<le> charge units counter"
proof -
  have a: "\<forall>res w'. search_agent_run eng extraction fuel prompt d u mh limits w = Some (res, w')
       \<longrightarrow> allocated w' = allocated w \<and> (\<forall>r. usages w r \<le> usages w' r)"
    using search_agent_run_grows [of eng extraction fuel prompt d u mh limits w]
    by (simp add: ledgers_grow_def)
  have 1: "\<forall>fuel p d u mh l w res w'.
      search_agent_run eng extraction fuel p d u mh l w = Some (res, w') \<longrightarrow> ledgers_grow w w'"
    using search_agent_run_grows by blast
  have 2: "\<forall>fuel p d u mh l w res w'.
      seat_preference_agent_run seat_eng fuel p d u mh l w = Some (res, w') \<longrightarrow> ledgers_grow w w'"
    using seat_preference_agent_run_grows by blast
  have b: "\<forall>res w'. session_loop fuel (search_agent_run eng extraction)
                    (seat_preference_agent_run seat_eng) d u mh w = Some (res, w')
       \<longrightarrow> allocated w' = allocated w \<and> (\<forall>r. usages w r \<le> usages w' r)"
    using session_loop_grows [OF 1 2, of fuel d u mh w]
    by (simp add: ledgers_grow_def)
  have c: "\<forall>flights c. extraction [UserPrompt (web_page_text (deps ctx))]
                      = Inr \<lparr>variant = StructuredResult flights, usage_cost = c\<rparr>
       \<longrightarrow> extract_flights extraction (Suc fuel) ctx args w
            = Some (Inr flights, emit (Found_flights (length flights))
                     (w\<lparr>usages := (usages w)(usage ctx := usages w (usage ctx) + c)\<rparr>))"
    using extract_flights_one_answer [of extraction ctx _ _ fuel args w] by blast
  have e: "counter \<le> charge units counter"
    by (simp add: charge_def)
  show ?thesis
    using a b c e by blast
qed

lemma accepted_listing_1: "validate_result requested (Flight listing_1) = Inr (Flight listing_1)"
  using meets_constraints_iff [of requested listing_1]
  by (simp add: meets_constraints_def requested_def listing_1_def)

lemma run_with_tool:
  "search_agent_run (extracts_then_proposes listing_1) reads_page (Suc (Suc (Suc 0)))
       (Some (search_prompt requested)) requested 0 None (Some usage_limits)
       (snd (new_Usage (initial_world [])))
   = Some (Inr \<lparr>data = Flight listing_1,
                 messages = [UserPrompt (Some (search_prompt requested)),
                    EngineTurn (CapabilityRequests [(''extract_flights'', [])]),
                    CapabilityOutput ''extract_flights'' flights_web_page,
                    EngineTurn (StructuredResult (Flight listing_1))],
                 attribute_all = Inl AttributeError\<rparr>,
           \<lparr>usages = (\<lambda>r. 0)(0 := 4), allocated = 1,
            printed = [Found_flights 8], stdin = []\<rparr>)"
  by (simp add: search_agent_run_def agent_run_def search_agent_def extracts_then_proposes_def
        reads_page_def extract_flights_def extraction_agent_def
        charge_ledger_def checked_charge_def check_def charge_def usage_limits_def
        new_Usage_def initial_world_def emit_def accepted_listing_1 flights_web_page_def)
    (simp add: eval_nat_numeral)


theorem usage_ledger_is_shared_and_never_decreases_witness:
  "search_agent_run (extracts_then_proposes listing_1) reads_page (Suc (Suc (Suc 0)))
       (Some (search_prompt requested)) requested 0 None (Some usage_limits)
       (snd (new_Usage (initial_world [])))
     = Some (Inr \<lparr>data = Flight listing_1,
                 messages = [UserPrompt (Some (search_prompt requested)),
                    EngineTurn (CapabilityRequests [(''extract_flights'', [])]),
                    CapabilityOutput ''extract_flights'' flights_web_page,
                    EngineTurn (StructuredResult (Flight listing_1))],
                 attribute_all = Inl AttributeError\<rparr>,
           \<lparr>usages = (\<lambda>r. 0)(0 := 4), allocated = 1,
            printed = [Found_flights 8], stdin = []\<rparr>)
   \<and> extract_flights reads_page (Suc 0) \<lparr>deps = requested, usage = 0\<rparr> []
         (snd (new_Usage (initial_world [])))
     = Some (Inr flights_web_page,
             \<lparr>usages = (\<lambda>r. 0)(0 := 2), allocated = 1,
              printed = [Found_flights 8], stdin = []\<rparr>)
   \<and> allocated (snd (new_Usage (initial_world []))) = 1"
proof -
  let ?w = "snd (new_Usage (initial_world []))"
  let ?ctx = "\<lparr>deps = requested, usage = 0\<rparr>"
  note t = usage_ledger_is_shared_and_never_decreases
    [where eng = "extracts_then_proposes listing_1" and extraction = reads_page
       and fuel = "Suc (Suc (Suc 0))" and prompt = "Some (search_prompt requested)"
       and d = requested and u = 0 and mh = None and limits = "Some usage_limits"
       and w = ?w]
  note t0 = usage_ledger_is_shared_and_never_decreases
    [where extraction = reads_page and fuel = 0 and ctx = ?ctx and args = "[]" and w = ?w]
  have answer: "reads_page [UserPrompt (web_page_text (deps ?ctx))]
      = Inr \<lparr>variant = StructuredResult flights_web_page, usage_cost = 2\<rparr>"
    by (simp add: reads_page_def)
  have after: "emit (Found_flights (length flights_web_page))
               (?w\<lparr>usages := (usages ?w)(usage ?ctx := usages ?w (usage ?ctx) + 2)\<rparr>)
      = \<lparr>usages = (\<lambda>r. 0)(0 := 2), allocated = 1,
              printed = [Found_flights 8], stdin = []\<rparr>"
    by (simp add: emit_def new_Usage_def initial_world_def flights_web_page_def)
      (simp add: eval_nat_numeral)
  have "extract_flights reads_page (Suc 0) ?ctx [] ?w
      = Some (Inr flights_web_page, emit (Found_flights (length flights_web_page))
               (?w\<lparr>usages := (usages ?w)(usage ?ctx := usages ?w (usage ?ctx) + 2)\<rparr>))"
    using t0 answer by blast
  then have tool: "extract_flights reads_page (Suc 0) ?ctx [] ?w
      = Some (Inr flights_web_page,
             \<lparr>usages = (\<lambda>r. 0)(0 := 2), allocated = 1,
              printed = [Found_flights 8], stdin = []\<rparr>)"
    by (simp only: after)
  have "allocated \<lparr>usages = (\<lambda>r. 0)(0 := 4::nat), allocated = 1,
            printed = [Found_flights 8], stdin = []\<rparr> = allocated ?w"
    using t run_with_tool by blast
  then have same: "allocated ?w = 1"
    by simp
  show ?thesis
    using run_with_tool tool same by simp
qed

section \<open>The loop of main and find_seat on concrete sessions\<close>


lemma main_deps_raises_TypeError: "main_deps = Inl TypeError"
  by (simp add: main_deps_def and_then_def)

lemma proposal_accepted_run:
  "validate_result d (Flight f) = Inr (Flight f) \<Longrightarrow> usages w u + 1 \<le> usage_limits \<Longrightarrow>
   search_agent_run (always (Flight f)) extraction (Suc n) prompt d u mh (Some usage_limits) w
     = Some (Inr \<lparr>data = Flight f,
                   messages = (case mh of None \<Rightarrow> [] | Some h \<Rightarrow> h)
                      @ [UserPrompt prompt, EngineTurn (StructuredResult (Flight f))],
                   attribute_all = Inl AttributeError\<rparr>,
             w\<lparr>usages := (usages w)(u := usages w u + 1)\<rparr>)"
  by (simp add: search_agent_run_def agent_run_def search_agent_def always_def
      charge_ledger_def checked_charge_cases)

lemma session_loop_keep_searching:
  "run fuel (Some (search_prompt d)) d u mh (Some usage_limits) w = Some (Inr result, w1)
   \<Longrightarrow> data result = Flight f
   \<Longrightarrow> Prompt_ask (Some [''buy'', ''search'', []]) (emit (Flight_found f) w1) = (Inr a, w2)
   \<Longrightarrow> a \<noteq> ''buy'' \<Longrightarrow> attribute_all result = Inl e
   \<Longrightarrow> session_loop (Suc fuel) run seat_run d u mh w = Some (Inl e, w2)"
  by simp

text \<open>
  C7 at a concrete session: the engine proposes SFO-AK123, which the validator accepts,
  and the caller types "search". The loop does not reach a second run: evaluating
  \<open>result.all\<close> raises \<open>AttributeError\<close>, whatever the bound on the steps.
\<close>

theorem keep_searching_raises_AttributeError:
  "session (Suc (Suc n)) (search_agent_run (always (Flight listing_1)) reads_page)
       (seat_preference_agent_run (always Failed)) requested (initial_world [''search''])
     = Some (Inl AttributeError,
             \<lparr>usages = (\<lambda>r. 0)(0 := 1), allocated = 1,
              printed = [Flight_found listing_1], stdin = []\<rparr>)"
proof -
  let ?w = "snd (new_Usage (initial_world [''search'']))"
  let ?w1 = "?w\<lparr>usages := (usages ?w)(0 := usages ?w 0 + 1)\<rparr>"
  let ?w2 = "\<lparr>usages = (\<lambda>r. 0)(0 := 1::nat), allocated = 1,
              printed = [Flight_found listing_1], stdin = []\<rparr>"
  let ?result = "\<lparr>data = Flight listing_1,
      messages = (case None of None \<Rightarrow> [] | Some h \<Rightarrow> h)
         @ [UserPrompt (Some (search_prompt requested)),
            EngineTurn (StructuredResult (Flight listing_1))],
      attribute_all = Inl AttributeError\<rparr>
      :: (search_result, FlightDetails list) RunResult"
  have room: "usages ?w 0 + 1 \<le> usage_limits"
    by (simp add: new_Usage_def initial_world_def usage_limits_def)
  have run: "search_agent_run (always (Flight listing_1)) reads_page (Suc n)
      (Some (search_prompt requested)) requested 0 None (Some usage_limits) ?w
      = Some (Inr ?result, ?w1)"
    using proposal_accepted_run [OF accepted_listing_1 room,
      of reads_page n "Some (search_prompt requested)" None] .
  have ask: "Prompt_ask (Some [''buy'', ''search'', []]) (emit (Flight_found listing_1) ?w1)
      = (Inr ''search'', ?w2)"
    by (simp add: Prompt_ask_def str_strip_def is_space_def emit_def new_Usage_def initial_world_def)
  have "session_loop (Suc (Suc n)) (search_agent_run (always (Flight listing_1)) reads_page)
       (seat_preference_agent_run (always Failed)) requested 0 None ?w
     = Some (Inl AttributeError, ?w2)"
    by (rule session_loop_keep_searching
        [where run = "search_agent_run (always (Flight listing_1)) reads_page"
           and fuel = "Suc n" and d = requested and u = 0 and mh = None, OF run _ ask])
      simp_all
  moreover have "fst (new_Usage (initial_world [''search''])) = 0"
    by (simp add: new_Usage_def initial_world_def)
  ultimately show ?thesis
    by (simp only: session_def case_prod_unfold)
qed

lemma seat_run_gives:
  "usages w u + 1 \<le> usage_limits \<Longrightarrow>
   seat_preference_agent_run (always r) (Suc n) prompt d u mh (Some usage_limits) w
     = Some (Inr \<lparr>data = r,
                   messages = (case mh of None \<Rightarrow> [] | Some h \<Rightarrow> h)
                      @ [UserPrompt prompt, EngineTurn (StructuredResult r)],
                   attribute_all = Inl AttributeError\<rparr>,
             w\<lparr>usages := (usages w)(u := usages w u + 1)\<rparr>)"
  by (simp add: seat_preference_agent_run_def agent_run_def seat_preference_agent_def always_def
      charge_ledger_def checked_charge_cases)

lemma find_seat_loop_Failed:
  "Prompt_ask None w = (Inr a, w1)
   \<Longrightarrow> run fuel (Some a) () u mh (Some usage_limits) w1 = Some (Inr result, w2)
   \<Longrightarrow> data result = Failed \<Longrightarrow> attribute_all result = Inl e
   \<Longrightarrow> find_seat_loop (Suc fuel) run u mh w = Some (Inl e, emit Could_not_understand w2)"
  by simp

text \<open>
  C8 at a concrete call: the caller types a line the seat agent cannot read, so the run
  yields \<open>Failed\<close>. \<open>find_seat\<close> prints its message and then raises \<open>AttributeError\<close>
  on \<open>result.all\<close>; it does not ask again, whatever the bound on the steps.
\<close>

theorem find_seat_raises_on_Failed:
  "find_seat (Suc (Suc n)) (seat_preference_agent_run (always Failed)) 0
       (snd (new_Usage (initial_world [''somewhere nice'', ''14A''])))
     = Some (Inl AttributeError,
             \<lparr>usages = (\<lambda>r. 0)(0 := 1), allocated = 1,
              printed = [Could_not_understand], stdin = [''14A'']\<rparr>)"
proof -
  let ?w = "snd (new_Usage (initial_world [''somewhere nice'', ''14A'']))"
  let ?w1 = "?w\<lparr>stdin := [''14A'']\<rparr>"
  let ?w2 = "?w1\<lparr>usages := (usages ?w1)(0 := usages ?w1 0 + 1)\<rparr>"
  let ?result = "\<lparr>data = Failed,
      messages = (case None of None \<Rightarrow> [] | Some h \<Rightarrow> h)
         @ [UserPrompt (Some ''somewhere nice''), EngineTurn (StructuredResult Failed)],
      attribute_all = Inl AttributeError\<rparr> :: (seat_result, unit) RunResult"
  have ask: "Prompt_ask None ?w = (Inr ''somewhere nice'', ?w1)"
    by (simp add: Prompt_ask_def str_strip_def is_space_def new_Usage_def initial_world_def)
  have room: "usages ?w1 0 + 1 \<le> usage_limits"
    by (simp add: new_Usage_def initial_world_def usage_limits_def)
  have run: "seat_preference_agent_run (always Failed) (Suc n) (Some ''somewhere nice'') () 0
      None (Some usage_limits) ?w1 = Some (Inr ?result, ?w2)"
    using seat_run_gives [OF room, of Failed n "Some ''somewhere nice''" "()" None] .
  have "find_seat_loop (Suc (Suc n)) (seat_preference_agent_run (always Failed)) 0 None ?w
      = Some (Inl AttributeError, emit Could_not_understand ?w2)"
    by (rule find_seat_loop_Failed
        [where run = "seat_preference_agent_run (always Failed)" and fuel = "Suc n"
           and u = 0 and mh = None, OF ask run])
      simp_all
  moreover have "emit Could_not_understand ?w2
      = \<lparr>usages = (\<lambda>r. 0)(0 := 1), allocated = 1,
              printed = [Could_not_understand], stdin = [''14A'']\<rparr>"
    by (simp add: emit_def new_Usage_def initial_world_def)
  ultimately show ?thesis
    by (simp only: find_seat_def)
qed


lemma SeatPreference_invariant:
  "1 \<le> row sp \<and> row sp \<le> 30 \<and> seat sp \<in> set seat_letters"
  by transfer auto

lemma find_seat_loop_returns_Seat:
  "find_seat_loop fuel run u mh w = Some (Inr sp, w')
   \<Longrightarrow> \<exists>fuel' a mh' w1 result. run fuel' (Some a) () u mh' (Some usage_limits) w1
              = Some (Inr result, w') \<and> data result = Seat sp"
proof (induction fuel arbitrary: mh w)
  case 0
  then show ?case by simp
next
  case (Suc fuel)
  obtain a w1 where ask: "Prompt_ask None w = (a, w1)"
    by (cases "Prompt_ask None w")
  show ?case
  proof (cases a)
    case (Inl e)
    with Suc.prems ask show ?thesis by simp
  next
    case (Inr line)
    show ?thesis
    proof (cases "run fuel (Some line) () u mh (Some usage_limits) w1")
      case None
      with Suc.prems ask Inr show ?thesis by simp
    next
      case (Some out)
      obtain r w2 where out: "out = (r, w2)" by (cases out)
      show ?thesis
      proof (cases r)
        case failed: (Inl e)
        with Suc.prems ask Inr Some out show ?thesis by simp
      next
        case ok: (Inr result)
        show ?thesis
        proof (cases "data result")
          case (Seat preference)
          with Suc.prems ask Inr Some out ok have "preference = sp" "w2 = w'"
            by simp_all
          with Some out ok Seat show ?thesis by blast
        next
          case Failed
          show ?thesis
          proof (cases "attribute_all result")
            case no: (Inl e)
            with Suc.prems ask Inr Some out ok Failed show ?thesis by simp
          next
            case yes: (Inr all_messages)
            with Suc.prems ask Inr Some out ok Failed
            have "find_seat_loop fuel run u (Some (all_messages None))
                (emit Could_not_understand w2) = Some (Inr sp, w')"
              by simp
            then show ?thesis by (rule Suc.IH)
          qed
        qed
      qed
    qed
  qed
qed

text \<open>
  Every \<open>SeatPreference\<close> that \<open>find_seat\<close> returns has a row from 1 to 30 and a seat
  letter from A to F, and it is the \<open>data\<close> of a run of the seat agent that yielded the
  \<open>SeatPreference\<close> variant; the world is the one that run left.
\<close>

theorem find_seat_returns_a_valid_SeatPreference:
  "find_seat fuel run u w = Some (Inr sp, w')
   \<longrightarrow> 1 \<le> row sp \<and> row sp \<le> 30 \<and> seat sp \<in> set seat_letters
       \<and> (\<exists>fuel' a mh w1 result. run fuel' (Some a) () u mh (Some usage_limits) w1
              = Some (Inr result, w') \<and> data result = Seat sp)"
  using find_seat_loop_returns_Seat [of fuel run u None w sp w'] SeatPreference_invariant [of sp]
  by (simp add: find_seat_def)

lemma find_seat_loop_Seat:
  "Prompt_ask None w = (Inr a, w1)
   \<Longrightarrow> run fuel (Some a) () u mh (Some usage_limits) w1 = Some (Inr result, w2)
   \<Longrightarrow> data result = Seat sp
   \<Longrightarrow> find_seat_loop (Suc fuel) run u mh w = Some (Inr sp, w2)"
  by simp

theorem find_seat_returns_a_valid_SeatPreference_witness:
  "find_seat (Suc (Suc 0))
       (seat_preference_agent_run (always (Seat (Abs_SeatPreference (14, ''A''))))) 0
       (snd (new_Usage (initial_world [''14A''])))
     = Some (Inr (Abs_SeatPreference (14, ''A'')),
             \<lparr>usages = (\<lambda>r. 0)(0 := 1), allocated = 1, printed = [], stdin = []\<rparr>)
   \<and> row (Abs_SeatPreference (14, ''A'')) = 14
   \<and> seat (Abs_SeatPreference (14, ''A'')) = ''A''
   \<and> 1 \<le> row (Abs_SeatPreference (14, ''A''))
   \<and> row (Abs_SeatPreference (14, ''A'')) \<le> 30"
proof -
  let ?sp = "Abs_SeatPreference (14, ''A'')"
  let ?w = "snd (new_Usage (initial_world [''14A'']))"
  let ?w1 = "?w\<lparr>stdin := []\<rparr>"
  let ?w2 = "?w1\<lparr>usages := (usages ?w1)(0 := usages ?w1 0 + 1)\<rparr>"
  let ?final = "\<lparr>usages = (\<lambda>r. 0)(0 := 1::nat), allocated = 1, printed = [], stdin = []\<rparr>"
  let ?result = "\<lparr>data = Seat ?sp,
      messages = (case None of None \<Rightarrow> [] | Some h \<Rightarrow> h)
         @ [UserPrompt (Some ''14A''), EngineTurn (StructuredResult (Seat ?sp))],
      attribute_all = Inl AttributeError\<rparr> :: (seat_result, unit) RunResult"
  have ask: "Prompt_ask None ?w = (Inr ''14A'', ?w1)"
    by (simp add: Prompt_ask_def str_strip_def is_space_def new_Usage_def initial_world_def)
  have room: "usages ?w1 0 + 1 \<le> usage_limits"
    by (simp add: new_Usage_def initial_world_def usage_limits_def)
  have run: "seat_preference_agent_run (always (Seat ?sp)) (Suc 0) (Some ''14A'') () 0
      None (Some usage_limits) ?w1 = Some (Inr ?result, ?w2)"
    using seat_run_gives [OF room, of "Seat ?sp" 0 "Some ''14A''" "()" None] .
  have "find_seat_loop (Suc (Suc 0)) (seat_preference_agent_run (always (Seat ?sp))) 0 None ?w
      = Some (Inr ?sp, ?w2)"
    by (rule find_seat_loop_Seat
        [where run = "seat_preference_agent_run (always (Seat ?sp))" and fuel = "Suc 0"
           and u = 0 and mh = None, OF ask run])
      simp
  moreover have "?w2 = ?final"
    by (simp add: new_Usage_def initial_world_def)
  ultimately have found: "find_seat (Suc (Suc 0)) (seat_preference_agent_run (always (Seat ?sp)))
      0 ?w = Some (Inr ?sp, ?final)"
    by (simp only: find_seat_def)
  have rep: "Rep_SeatPreference ?sp = (14, ''A'')"
    by (rule Abs_SeatPreference_inverse) (simp add: seat_letters_def)
  have rs: "row ?sp = 14" "seat ?sp = ''A''"
    by (simp_all add: row.rep_eq seat.rep_eq rep)
  have "1 \<le> row ?sp \<and> row ?sp \<le> 30"
    using find_seat_returns_a_valid_SeatPreference
      [of "Suc (Suc 0)" "seat_preference_agent_run (always (Seat ?sp))" 0 ?w ?sp ?final] found
    by blast
  then show ?thesis
    using found rs by simp
qed

section \<open>Further properties of the scripts\<close>

text \<open>
  Without a weather API key \<open>get_weather\<close> makes no request: it returns the fixed
  response, 21 degrees and "Sunny with a chance of showers", whatever the API would
  have delivered.
\<close>

theorem get_weather_without_key_returns_dummy:
  "weather_api_key d = None \<longrightarrow>
   get_weather format_0f response d
     = Inr [(''temperature'', ''21 '' @ degree_celsius),
            (''description'', ''Sunny with a chance of showers'')]"
  by (simp add: get_weather_def)

theorem get_weather_without_key_returns_dummy_witness:
  "get_weather (\<lambda>v. Inr ''12'') (Inl (ExternalFailure ''no network''))
       \<lparr>weather_api_key = None, geo_api_key = None\<rparr>
     = Inr [(''temperature'', ''21 '' @ degree_celsius),
            (''description'', ''Sunny with a chance of showers'')]"
  using get_weather_without_key_returns_dummy
    [of "\<lparr>weather_api_key = None, geo_api_key = None\<rparr>" "\<lambda>v. Inr ''12''"
      "Inl (ExternalFailure ''no network'')"]
  by simp

text \<open>
  What \<open>validate_result\<close> returns is the result it was given, and the only exception it
  raises is \<open>ModelRetry\<close>.
\<close>

theorem validate_result_returns_its_argument:
  "(\<forall>r'. validate_result d r = Inr r' \<longrightarrow> r' = r)
   \<and> (\<forall>e. validate_result d r = Inl e \<longrightarrow> (\<exists>m. e = ModelRetry m))"
  by (cases r) (auto simp: validate_result_def Let_def split: if_splits)

theorem validate_result_returns_its_argument_witness:
  "validate_result requested (Flight listing_4) = Inr (Flight listing_4)
   \<and> (\<exists>m. validate_result requested (Flight listing_3) = Inl (ModelRetry m))"
proof -
  have a: "validate_result requested (Flight listing_4) = Inr (Flight listing_4)"
    using meets_constraints_iff [of requested listing_4]
    by (simp add: meets_constraints_def requested_def listing_4_def)
  have "\<not> meets_constraints requested listing_3"
    by (simp add: meets_constraints_iff requested_def listing_3_def)
  then have "\<forall>r'. validate_result requested (Flight listing_3) \<noteq> Inr r'"
    using validate_result_returns_its_argument [of requested "Flight listing_3"]
    by (auto simp: meets_constraints_def)
  then obtain e where "validate_result requested (Flight listing_3) = Inl e"
    by (cases "validate_result requested (Flight listing_3)") auto
  then have "\<exists>m. validate_result requested (Flight listing_3) = Inl (ModelRetry m)"
    using validate_result_returns_its_argument [of requested "Flight listing_3"] by auto
  with a show ?thesis by simp
qed

text \<open>
  In the loop of \<open>main\<close>, when the run yields a flight, the caller types "buy" and
  \<open>find_seat\<close> returns a seat, the iteration prints the flight found, purchases that
  flight with that seat, and the loop ends normally.
\<close>

theorem buying_ends_the_loop:
  "run fuel (Some (search_prompt d)) d u mh (Some usage_limits) w = Some (Inr result, w1)
     \<and> data result = Flight f
     \<and> Prompt_ask (Some [''buy'', ''search'', []]) (emit (Flight_found f) w1) = (Inr ''buy'', w2)
     \<and> find_seat fuel seat_run u w2 = Some (Inr st, w3)
   \<longrightarrow> session_loop (Suc fuel) run seat_run d u mh w = Some (Inr (), emit (Purchasing f st) w3)"
  by (simp add: buy_tickets_def)

theorem buying_ends_the_loop_witness:
  "session (Suc (Suc (Suc 0))) (search_agent_run (always (Flight listing_1)) reads_page)
       (seat_preference_agent_run (always (Seat (Abs_SeatPreference (14, ''A'')))))
       requested (initial_world ['' buy '', ''14A''])
     = Some (Inr (),
             \<lparr>usages = (\<lambda>r. 0)(0 := 2), allocated = 1,
              printed = [Flight_found listing_1,
                         Purchasing listing_1 (Abs_SeatPreference (14, ''A''))],
              stdin = []\<rparr>)
   \<and> price listing_1 = 350"
proof -
  let ?sp = "Abs_SeatPreference (14, ''A'')"
  let ?run = "search_agent_run (always (Flight listing_1)) reads_page"
  let ?seat_run = "seat_preference_agent_run (always (Seat ?sp))"
  define w where "w = snd (new_Usage (initial_world ['' buy '', ''14A'']))"
  define w1 where "w1 = w\<lparr>usages := (usages w)(0 := usages w 0 + 1)\<rparr>"
  define w2 where "w2 = emit (Flight_found listing_1) w1\<lparr>stdin := [''14A'']\<rparr>"
  define w2' where "w2' = w2\<lparr>stdin := []\<rparr>"
  define w3 where "w3 = w2'\<lparr>usages := (usages w2')(0 := usages w2' 0 + 1)\<rparr>"
  define result :: "(search_result, FlightDetails list) RunResult" where
    "result = \<lparr>data = Flight listing_1,
      messages = (case None of None \<Rightarrow> [] | Some h \<Rightarrow> h)
         @ [UserPrompt (Some (search_prompt requested)),
            EngineTurn (StructuredResult (Flight listing_1))],
      attribute_all = Inl AttributeError\<rparr>"
  define seat_result :: "(seat_result, unit) RunResult" where
    "seat_result = \<lparr>data = Seat ?sp,
      messages = (case None of None \<Rightarrow> [] | Some h \<Rightarrow> h)
         @ [UserPrompt (Some ''14A''), EngineTurn (StructuredResult (Seat ?sp))],
      attribute_all = Inl AttributeError\<rparr>"
  have new: "new_Usage (initial_world ['' buy '', ''14A'']) = (0, w)"
    by (simp add: new_Usage_def initial_world_def w_def)
  have room: "usages w 0 + 1 \<le> usage_limits"
    by (simp add: new_Usage_def initial_world_def usage_limits_def w_def)
  have run: "?run (Suc (Suc 0)) (Some (search_prompt requested)) requested 0 None
      (Some usage_limits) w = Some (Inr result, w1)"
    unfolding result_def w1_def
    using proposal_accepted_run [OF accepted_listing_1 room,
      of reads_page "Suc 0" "Some (search_prompt requested)" None] .
  have ask: "Prompt_ask (Some [''buy'', ''search'', []]) (emit (Flight_found listing_1) w1)
      = (Inr ''buy'', w2)"
    by (simp add: Prompt_ask_def str_strip_def is_space_def emit_def new_Usage_def initial_world_def w_def w1_def w2_def)
  have ask2: "Prompt_ask None w2 = (Inr ''14A'', w2')"
    by (simp add: Prompt_ask_def str_strip_def is_space_def emit_def w2_def w2'_def)
  have room2: "usages w2' 0 + 1 \<le> usage_limits"
    by (simp add: emit_def new_Usage_def initial_world_def usage_limits_def
        w_def w1_def w2_def w2'_def)
  have seat: "?seat_run (Suc 0) (Some ''14A'') () 0 None (Some usage_limits) w2'
      = Some (Inr seat_result, w3)"
    unfolding seat_result_def w3_def
    using seat_run_gives [OF room2, of "Seat ?sp" 0 "Some ''14A''" "()" None] .
  have "find_seat_loop (Suc (Suc 0)) ?seat_run 0 None w2 = Some (Inr ?sp, w3)"
    by (rule find_seat_loop_Seat
        [where run = ?seat_run and fuel = "Suc 0" and u = 0 and mh = None, OF ask2 seat])
      (simp add: seat_result_def)
  then have found: "find_seat (Suc (Suc 0)) ?seat_run 0 w2 = Some (Inr ?sp, w3)"
    by (simp only: find_seat_def)
  have d: "data result = Flight listing_1"
    by (simp add: result_def)
  note t = buying_ends_the_loop
    [where run = ?run and fuel = "Suc (Suc 0)" and d = requested and u = 0 and mh = None
       and w = w and result = result and ?w1.0 = w1 and f = listing_1 and ?w2.0 = w2
       and seat_run = ?seat_run and st = ?sp and ?w3.0 = w3]
  have loop: "session_loop (Suc (Suc (Suc 0))) ?run ?seat_run requested 0 None w
      = Some (Inr (), emit (Purchasing listing_1 ?sp) w3)"
    using t run d ask found by blast
  have final: "emit (Purchasing listing_1 ?sp) w3
      = \<lparr>usages = (\<lambda>r. 0)(0 := 2), allocated = 1,
         printed = [Flight_found listing_1, Purchasing listing_1 ?sp], stdin = []\<rparr>"
    by (simp add: emit_def new_Usage_def initial_world_def w_def w1_def w2_def w2'_def w3_def)
      (simp add: eval_nat_numeral)
  have "session (Suc (Suc (Suc 0))) ?run ?seat_run requested (initial_world ['' buy '', ''14A''])
      = Some (Inr (), emit (Purchasing listing_1 ?sp) w3)"
    by (simp only: session_def new prod.case loop)
  then show ?thesis
    by (simp only: final) (simp add: listing_1_def)
qed

section \<open>The outcome of a cycle whose validator always rejects\<close>


lemma proposals_append [simp]: "proposals (h @ h') = proposals h + proposals h'"
  by (simp add: proposals_def)

lemma proposals_simps [simp]:
  "proposals [] = 0"
  "proposals (EngineTurn (StructuredResult r) # h) = Suc (proposals h)"
  "proposals (EngineTurn (CapabilityRequests rs) # h) = proposals h"
  "proposals (RetryFeedback m # h) = proposals h"
  "proposals (UserPrompt p # h) = proposals h"
  "proposals (CapabilityOutput n out # h) = proposals h"
  "proposals (CapabilityFailed n e # h) = proposals h"
  "proposals (Corrective c # h) = proposals h"
  by (simp_all add: proposals_def)

lemma capability_rounds_append [simp]:
  "capability_rounds (h @ h') = capability_rounds h + capability_rounds h'"
  by (simp add: capability_rounds_def)

lemma capability_rounds_simps [simp]:
  "capability_rounds [] = 0"
  "capability_rounds (EngineTurn (StructuredResult r) # h) = capability_rounds h"
  "capability_rounds (EngineTurn (CapabilityRequests rs) # h) = Suc (capability_rounds h)"
  "capability_rounds (RetryFeedback m # h) = capability_rounds h"
  "capability_rounds (UserPrompt p # h) = capability_rounds h"
  "capability_rounds (CapabilityOutput n out # h) = capability_rounds h"
  "capability_rounds (CapabilityFailed n e # h) = capability_rounds h"
  "capability_rounds (Corrective c # h) = capability_rounds h"
  by (simp_all add: capability_rounds_def)

lemma invoke_all_records:
  "invoke_all fuel reg ctx requests h w = Some (res, h', w')
   \<Longrightarrow> proposals h' = proposals h \<and> capability_rounds h' = capability_rounds h
       \<and> (\<forall>e. res = Inl e \<longrightarrow> e = UnknownCapability \<or> e = BudgetExceeded)"
proof (induction requests arbitrary: h w)
  case Nil
  then show ?case by auto
next
  case (Cons req rest)
  obtain name args where req: "req = (name, args)" by (cases req)
  show ?case
  proof (cases "map_of reg name")
    case None
    with Cons.prems req show ?thesis by auto
  next
    case (Some hdl)
    show ?thesis
    proof (cases "hdl fuel ctx args w")
      case None
      with Cons.prems req Some show ?thesis by simp
    next
      case out: (Some out)
      obtain r w1 where o: "out = (r, w1)" by (cases out)
      show ?thesis
      proof (cases r)
        case (Inl e)
        show ?thesis
        proof (cases "e = BudgetExceeded")
          case True
          with Cons.prems req Some out o Inl show ?thesis by auto
        next
          case False
          with Cons.prems req Some out o Inl
          have "invoke_all fuel reg ctx rest (h @ [CapabilityFailed name e]) w1 = Some (res, h', w')"
            by simp
          from Cons.IH [OF this] show ?thesis by simp
        qed
      next
        case (Inr o1)
        with Cons.prems req Some out o
        have "invoke_all fuel reg ctx rest (h @ [CapabilityOutput name o1]) w1 = Some (res, h', w')"
          by simp
        from Cons.IH [OF this] show ?thesis by simp
      qed
    qed
  qed
qed

lemma invoke_all_returns:
  assumes hs: "\<forall>name hdl fuel' c args w. map_of reg name = Some hdl \<and> f0 \<le> fuel'
                 \<longrightarrow> hdl fuel' c args w \<noteq> None"
    and fuel: "f0 \<le> fuel"
  shows "invoke_all fuel reg ctx requests h w \<noteq> None"
proof (induction requests arbitrary: h w)
  case Nil
  show ?case by simp
next
  case (Cons req rest)
  obtain name args where req: "req = (name, args)" by (cases req)
  show ?case
  proof (cases "map_of reg name")
    case None
    with req show ?thesis by simp
  next
    case (Some hdl)
    with hs fuel have "hdl fuel ctx args w \<noteq> None" by blast
    then obtain r w1 where out: "hdl fuel ctx args w = Some (r, w1)" by auto
    show ?thesis
    proof (cases r)
      case (Inl e)
      with req Some out Cons.IH show ?thesis by simp
    next
      case (Inr o1)
      with req Some out Cons.IH show ?thesis by simp
    qed
  qed
qed


lemma always_rejected_outcome:
  assumes val: "\<forall>c r. \<exists>m. result_validator ag c r = Inl (ModelRetry m)"
    and eng: "\<forall>h0 e. engine ag h0 = Inl e \<longrightarrow> e = EngineUnavailable"
  shows "turn_orchestrator fuel ag ctx ceiling h b w = Some (res, h', w')
     \<Longrightarrow> (\<exists>e. res = Inl e \<and> (e = RetriesExhausted \<or> e = BudgetExceeded
                              \<or> e = UnknownCapability \<or> e = EngineUnavailable))
       \<and> (res = Inl RetriesExhausted \<longrightarrow> proposals h' = proposals h + max b 1)"
proof (induction fuel arbitrary: h b w)
  case 0
  then show ?case by simp
next
  case (Suc fuel)
  show ?case
  proof (cases "engine ag h")
    case (Inl e)
    with eng have "e = EngineUnavailable" by blast
    with Suc.prems Inl show ?thesis by auto
  next
    case (Inr response)
    obtain c1 w1 where ch: "charge_ledger ceiling (usage ctx) (usage_cost response) w = (c1, w1)"
      by (cases "charge_ledger ceiling (usage ctx) (usage_cost response) w")
    show ?thesis
    proof (cases c1)
      case (Inl e)
      have "e = BudgetExceeded"
        using ch Inl
        by (cases ceiling)
          (auto simp: charge_ledger_def checked_charge_cases split: if_splits)
      with Suc.prems Inr ch Inl show ?thesis by auto
    next
      case ok: (Inr x)
      show ?thesis
      proof (cases "variant response")
        case (CapabilityRequests requests)
        show ?thesis
        proof (cases "invoke_all fuel (registry ag) ctx requests
                        (h @ [EngineTurn (variant response)]) w1")
          case None
          with Suc.prems Inr ch ok CapabilityRequests show ?thesis by simp
        next
          case (Some out)
          obtain r2 h2 w2 where out: "out = (r2, h2, w2)" by (cases out)
          note rec = invoke_all_records [of fuel "registry ag" ctx requests
              "h @ [EngineTurn (variant response)]" w1 r2 h2 w2]
          show ?thesis
          proof (cases r2)
            case (Inl e)
            with rec Some out have "e = UnknownCapability \<or> e = BudgetExceeded" by simp
            moreover from Suc.prems Inr ch ok CapabilityRequests Some out Inl
            have "res = Inl e" by simp
            ultimately show ?thesis by auto
          next
            case r2: (Inr y)
            with Suc.prems Inr ch ok CapabilityRequests Some out
            have "turn_orchestrator fuel ag ctx ceiling h2 b w2 = Some (res, h', w')"
              by simp
            from Suc.IH [OF this] rec Some out CapabilityRequests show ?thesis
              by simp
          qed
        qed
      next
        case (StructuredResult r)
        from val obtain m where m: "result_validator ag ctx r = Inl (ModelRetry m)"
          by blast
        show ?thesis
        proof (cases "b - 1 = 0")
          case True
          with Suc.prems Inr ch ok StructuredResult m
          have "res = Inl RetriesExhausted"
            "h' = h @ [EngineTurn (variant response), RetryFeedback m]"
            by simp_all
          moreover have "max b 1 = 1" using True by simp
          ultimately show ?thesis using StructuredResult by simp
        next
          case False
          with Suc.prems Inr ch ok StructuredResult m
          have "turn_orchestrator fuel ag ctx ceiling
              (h @ [EngineTurn (variant response), RetryFeedback m]) (b - 1) w1
              = Some (res, h', w')"
            by simp
          from Suc.IH [OF this] have
            "(\<exists>e. res = Inl e \<and> (e = RetriesExhausted \<or> e = BudgetExceeded
                              \<or> e = UnknownCapability \<or> e = EngineUnavailable))"
            "res = Inl RetriesExhausted \<longrightarrow>
               proposals h' = proposals (h @ [EngineTurn (variant response), RetryFeedback m])
                              + max (b - 1) 1"
            by blast+
          moreover have "Suc (max (b - 1) 1) = max b 1"
            using False by simp
          ultimately show ?thesis
            using StructuredResult by auto
        qed
      qed
    qed
  qed
qed

lemma turn_orchestrator_returns:
  assumes rounds: "\<forall>h0 response. k \<le> capability_rounds h0 \<and> engine ag h0 = Inr response
                     \<longrightarrow> (\<exists>r. variant response = StructuredResult r)"
    and hs: "\<forall>name hdl fuel' c args w. map_of (registry ag) name = Some hdl \<and> f0 \<le> fuel'
                 \<longrightarrow> hdl fuel' c args w \<noteq> None"
  shows "f0 + (k - capability_rounds h) + b + 1 \<le> fuel
     \<Longrightarrow> turn_orchestrator fuel ag ctx ceiling h b w \<noteq> None"
proof (induction fuel arbitrary: h b w)
  case 0
  then show ?case by simp
next
  case (Suc fuel)
  show ?case
  proof (cases "engine ag h")
    case (Inl e)
    then show ?thesis by simp
  next
    case (Inr response)
    obtain c1 w1 where ch: "charge_ledger ceiling (usage ctx) (usage_cost response) w = (c1, w1)"
      by (cases "charge_ledger ceiling (usage ctx) (usage_cost response) w")
    show ?thesis
    proof (cases c1)
      case (Inl e)
      with Inr ch show ?thesis by simp
    next
      case ok: (Inr x)
      show ?thesis
      proof (cases "variant response")
        case (CapabilityRequests requests)
        have less: "capability_rounds h < k"
        proof (rule ccontr)
          assume "\<not> capability_rounds h < k"
          then have "k \<le> capability_rounds h" by simp
          with rounds Inr obtain r where "variant response = StructuredResult r" by blast
          with CapabilityRequests show False by simp
        qed
        have f: "f0 \<le> fuel" using Suc.prems by simp
        have "invoke_all fuel (registry ag) ctx requests
                (h @ [EngineTurn (variant response)]) w1 \<noteq> None"
          using hs f by (rule invoke_all_returns)
        then obtain r2 h2 w2 where out: "invoke_all fuel (registry ag) ctx requests
                (h @ [EngineTurn (variant response)]) w1 = Some (r2, h2, w2)"
          by auto
        show ?thesis
        proof (cases r2)
          case (Inl e)
          with Inr ch ok CapabilityRequests out show ?thesis by simp
        next
          case r2: (Inr y)
          have "capability_rounds h2 = Suc (capability_rounds h)"
            using invoke_all_records [OF out] CapabilityRequests by simp
          then have "f0 + (k - capability_rounds h2) + b + 1 \<le> fuel"
            using Suc.prems less by simp
          then have "turn_orchestrator fuel ag ctx ceiling h2 b w2 \<noteq> None"
            by (rule Suc.IH)
          with Inr ch ok CapabilityRequests out r2 show ?thesis by simp
        qed
      next
        case (StructuredResult r)
        show ?thesis
        proof (cases "result_validator ag ctx r")
          case acc: (Inr accepted)
          with Inr ch ok StructuredResult show ?thesis by simp
        next
          case rej: (Inl e)
          show ?thesis
          proof (cases "\<exists>m. e = ModelRetry m")
            case False
            with Inr ch ok StructuredResult rej show ?thesis
              by (cases e) simp_all
          next
            case True
            then obtain m where m: "e = ModelRetry m" by blast
            show ?thesis
            proof (cases "b - 1 = 0")
              case True
              with Inr ch ok StructuredResult rej m show ?thesis by simp
            next
              case False
              have "capability_rounds (h @ [EngineTurn (variant response), RetryFeedback m])
                  = capability_rounds h"
                using StructuredResult by simp
              then have "f0 + (k - capability_rounds
                    (h @ [EngineTurn (variant response), RetryFeedback m])) + (b - 1) + 1 \<le> fuel"
                using Suc.prems False by simp
              then have "turn_orchestrator fuel ag ctx ceiling
                  (h @ [EngineTurn (variant response), RetryFeedback m]) (b - 1) w1 \<noteq> None"
                by (rule Suc.IH)
              with Inr ch ok StructuredResult rej m False show ?thesis by simp
            qed
          qed
        qed
      qed
    qed
  qed
qed


lemma capability_rounds_can_go_on_forever:
  "turn_orchestrator fuel (rejecting_agent requests_forever reads_page) ctx None h b w = None"
proof (induction fuel arbitrary: h w)
  case 0
  show ?case by simp
next
  case (Suc fuel)
  let ?ag = "rejecting_agent requests_forever reads_page"
  have e: "engine ?ag h
      = Inr \<lparr>variant = CapabilityRequests [(''extract_flights'', [])], usage_cost = 1\<rparr>"
    by (simp add: rejecting_agent_def requests_forever_def)
  have r: "registry ?ag = [(''extract_flights'', extract_flights reads_page)]"
    by (simp add: rejecting_agent_def)
  show ?case
  proof (cases fuel)
    case 0
    have "extract_flights reads_page 0 ctx [] w' = None" for w'
      by (simp add: extract_flights_def agent_run_def)
    then show ?thesis
      by (simp add: e r 0 charge_ledger_def)
  next
    case (Suc f)
    have answer: "reads_page [UserPrompt (web_page_text (deps ctx))]
        = Inr \<lparr>variant = StructuredResult flights_web_page, usage_cost = 2\<rparr>"
      by (simp add: reads_page_def)
    have tool: "extract_flights reads_page fuel ctx [] w'
        = Some (Inr flights_web_page, emit (Found_flights (length flights_web_page))
                 (w'\<lparr>usages := (usages w')(usage ctx := usages w' (usage ctx) + 2)\<rparr>))" for w'
      unfolding Suc
      by (rule extract_flights_one_answer
          [where extraction = reads_page and ctx = ctx and fuel = f and args = "[]", OF answer])
    show ?thesis
      by (simp add: e r charge_ledger_def tool Suc.IH)
  qed
qed

lemma rejected_after_one_capability_round:
  "turn_orchestrator (Suc (Suc (Suc (Suc (Suc n)))))
       (rejecting_agent (requests_once NoFlightFound) reads_page)
       \<lparr>deps = requested, usage = 0\<rparr> (Some usage_limits) [UserPrompt None] 4
       (snd (new_Usage (initial_world [])))
     = Some (Inl RetriesExhausted,
             [UserPrompt None,
              EngineTurn (CapabilityRequests [(''extract_flights'', [])]),
              CapabilityOutput ''extract_flights'' flights_web_page,
              EngineTurn (StructuredResult NoFlightFound), RetryFeedback ''rejected'',
              EngineTurn (StructuredResult NoFlightFound), RetryFeedback ''rejected'',
              EngineTurn (StructuredResult NoFlightFound), RetryFeedback ''rejected'',
              EngineTurn (StructuredResult NoFlightFound), RetryFeedback ''rejected''],
             \<lparr>usages = (\<lambda>r. 0)(0 := 7), allocated = 1,
              printed = [Found_flights 8], stdin = []\<rparr>)"
  by (simp add: rejecting_agent_def requests_once_def reads_page_def extract_flights_def
      agent_run_def extraction_agent_def charge_ledger_def checked_charge_cases charge_def
      usage_limits_def new_Usage_def initial_world_def emit_def flights_web_page_def)
    (simp add: eval_nat_numeral)

text \<open>
  C3, as stated, fails. With a validator that returns Retry on every call and a retry
  budget of 4: under a ceiling of 2 the cycle ends in \<open>BudgetExceeded\<close> after two
  rejected proposals; and when the engine first requests the tool \<open>extract_flights\<close>,
  the cycle ends in \<open>RetriesExhausted\<close> after five engine invocations, not four.
\<close>

theorem always_retry_can_end_otherwise:
  "turn_orchestrator (Suc (Suc (Suc (Suc 0))))
       (rejecting_agent (always NoFlightFound) reads_page)
       \<lparr>deps = requested, usage = 0\<rparr> (Some 2) [UserPrompt None] 4
       (snd (new_Usage (initial_world [])))
     = Some (Inl BudgetExceeded,
             [UserPrompt None,
              EngineTurn (StructuredResult NoFlightFound), RetryFeedback ''rejected'',
              EngineTurn (StructuredResult NoFlightFound), RetryFeedback ''rejected''],
             \<lparr>usages = (\<lambda>r. 0)(0 := 2), allocated = 1, printed = [], stdin = []\<rparr>)
   \<and> turn_orchestrator (Suc (Suc (Suc (Suc (Suc 0)))))
       (rejecting_agent (requests_once NoFlightFound) reads_page)
       \<lparr>deps = requested, usage = 0\<rparr> (Some usage_limits) [UserPrompt None] 4
       (snd (new_Usage (initial_world [])))
     = Some (Inl RetriesExhausted,
             [UserPrompt None,
              EngineTurn (CapabilityRequests [(''extract_flights'', [])]),
              CapabilityOutput ''extract_flights'' flights_web_page,
              EngineTurn (StructuredResult NoFlightFound), RetryFeedback ''rejected'',
              EngineTurn (StructuredResult NoFlightFound), RetryFeedback ''rejected'',
              EngineTurn (StructuredResult NoFlightFound), RetryFeedback ''rejected'',
              EngineTurn (StructuredResult NoFlightFound), RetryFeedback ''rejected''],
             \<lparr>usages = (\<lambda>r. 0)(0 := 7), allocated = 1,
              printed = [Found_flights 8], stdin = []\<rparr>)
   \<and> engine_turns
        [UserPrompt None,
         EngineTurn (CapabilityRequests [(''extract_flights'', [])]),
         CapabilityOutput ''extract_flights'' flights_web_page,
         EngineTurn (StructuredResult NoFlightFound), RetryFeedback ''rejected'',
         EngineTurn (StructuredResult NoFlightFound), RetryFeedback ''rejected'',
         EngineTurn (StructuredResult NoFlightFound), RetryFeedback ''rejected'',
         EngineTurn (StructuredResult NoFlightFound), RetryFeedback ''rejected'' :: (search_result, FlightDetails list) turn_record] = 5
   \<and> retries (rejecting_agent (requests_once NoFlightFound) reads_page) = 4"
proof -
  have a: "turn_orchestrator (Suc (Suc (Suc (Suc 0))))
       (rejecting_agent (always NoFlightFound) reads_page)
       \<lparr>deps = requested, usage = 0\<rparr> (Some 2) [UserPrompt None] 4
       (snd (new_Usage (initial_world [])))
     = Some (Inl BudgetExceeded,
             [UserPrompt None,
              EngineTurn (StructuredResult NoFlightFound), RetryFeedback ''rejected'',
              EngineTurn (StructuredResult NoFlightFound), RetryFeedback ''rejected''],
             \<lparr>usages = (\<lambda>r. 0)(0 := 2), allocated = 1, printed = [], stdin = []\<rparr>)"
    by (simp add: rejecting_agent_def always_def charge_ledger_def checked_charge_cases
        new_Usage_def initial_world_def)
      (simp add: eval_nat_numeral)
  note b = rejected_after_one_capability_round [of 0]
  show ?thesis
    by (simp only: a b) (simp add: rejecting_agent_def)
qed


text \<open>
  C3, amended. Let the validator return Retry on every call and the engine fail only
  with \<open>EngineUnavailable\<close>. Then a cycle that ends never ends in acceptance: it ends
  in \<open>RetriesExhausted\<close> unless \<open>BudgetExceeded\<close>, \<open>UnknownCapability\<close> or
  \<open>EngineUnavailable\<close> ended it first, and when it ends in \<open>RetriesExhausted\<close>, exactly
  \<open>retries ag\<close> structured results were proposed and rejected (one for a budget of 0),
  however many capability rounds came in between. The cycle does end, within a bound
  on the engine invocations that is known beforehand, when the engine stops requesting
  capabilities after \<open>k\<close> rounds and the handlers return. If the engine answers every
  invocation with a structured result that the validator rejects and the ledger has
  room, the cycle ends in \<open>RetriesExhausted\<close> after exactly \<open>retries ag\<close> engine
  invocations. The search agent is configured with \<open>retries=4\<close>.
\<close>

theorem always_retry_outcome_and_bound:
  "((\<forall>c r. \<exists>m. result_validator ag c r = Inl (ModelRetry m))
      \<and> (\<forall>h0 e. engine ag h0 = Inl e \<longrightarrow> e = EngineUnavailable)
      \<and> turn_orchestrator fuel ag ctx ceiling h (retries ag) w = Some (res, h', w')
     \<longrightarrow> (\<exists>e. res = Inl e \<and> (e = RetriesExhausted \<or> e = BudgetExceeded
                               \<or> e = UnknownCapability \<or> e = EngineUnavailable))
         \<and> (res = Inl RetriesExhausted
              \<longrightarrow> proposals h' = proposals h + max (retries ag) 1))
   \<and> ((\<forall>h0 response. k \<le> capability_rounds h0 \<and> engine ag h0 = Inr response
            \<longrightarrow> (\<exists>r. variant response = StructuredResult r))
       \<and> (\<forall>name hdl fuel' c args w0. map_of (registry ag) name = Some hdl \<and> f0 \<le> fuel'
            \<longrightarrow> hdl fuel' c args w0 \<noteq> None)
       \<and> f0 + (k - capability_rounds h) + retries ag + 1 \<le> fuel
      \<longrightarrow> turn_orchestrator fuel ag ctx ceiling h (retries ag) w \<noteq> None)
   \<and> ((\<forall>h0. \<exists>r c m. engine ag h0 = Inr \<lparr>variant = StructuredResult r, usage_cost = c\<rparr>
            \<and> c \<le> cost \<and> result_validator ag ctx r = Inl (ModelRetry m))
       \<and> 1 \<le> retries ag \<and> retries ag \<le> fuel
       \<and> within_ceiling ceiling (usages w (usage ctx) + retries ag * cost)
      \<longrightarrow> (\<exists>h1 w1. turn_orchestrator fuel ag ctx ceiling h (retries ag) w
                      = Some (Inl RetriesExhausted, h1, w1)
                   \<and> engine_turns h1 = engine_turns h + retries ag))
   \<and> retries (search_agent eng extraction) = 4"
proof -
  have a: "(\<forall>c r. \<exists>m. result_validator ag c r = Inl (ModelRetry m))
      \<and> (\<forall>h0 e. engine ag h0 = Inl e \<longrightarrow> e = EngineUnavailable)
      \<and> turn_orchestrator fuel ag ctx ceiling h (retries ag) w = Some (res, h', w')
     \<longrightarrow> (\<exists>e. res = Inl e \<and> (e = RetriesExhausted \<or> e = BudgetExceeded
                               \<or> e = UnknownCapability \<or> e = EngineUnavailable))
         \<and> (res = Inl RetriesExhausted
              \<longrightarrow> proposals h' = proposals h + max (retries ag) 1)"
    using always_rejected_outcome [of ag fuel ctx ceiling h "retries ag" w res h' w']
    by blast
  have b: "(\<forall>h0 response. k \<le> capability_rounds h0 \<and> engine ag h0 = Inr response
            \<longrightarrow> (\<exists>r. variant response = StructuredResult r))
       \<and> (\<forall>name hdl fuel' c args w0. map_of (registry ag) name = Some hdl \<and> f0 \<le> fuel'
            \<longrightarrow> hdl fuel' c args w0 \<noteq> None)
       \<and> f0 + (k - capability_rounds h) + retries ag + 1 \<le> fuel
      \<longrightarrow> turn_orchestrator fuel ag ctx ceiling h (retries ag) w \<noteq> None"
    using turn_orchestrator_returns [of k ag f0 h "retries ag" fuel ctx ceiling w]
    by blast
  have c: "(\<forall>h0. \<exists>r c m. engine ag h0 = Inr \<lparr>variant = StructuredResult r, usage_cost = c\<rparr>
            \<and> c \<le> cost \<and> result_validator ag ctx r = Inl (ModelRetry m))
       \<and> 1 \<le> retries ag \<and> retries ag \<le> fuel
       \<and> within_ceiling ceiling (usages w (usage ctx) + retries ag * cost)
      \<longrightarrow> (\<exists>h1 w1. turn_orchestrator fuel ag ctx ceiling h (retries ag) w
                      = Some (Inl RetriesExhausted, h1, w1)
                   \<and> engine_turns h1 = engine_turns h + retries ag)"
    using always_retry_exhausts [of ag cost ctx "retries ag" fuel ceiling w h]
    by blast
  have d: "retries (search_agent eng extraction) = 4"
    by (simp add: search_agent_def)
  show ?thesis
    using a b c d by blast
qed


theorem always_retry_outcome_and_bound_witness:
  "turn_orchestrator (Suc (Suc (Suc (Suc (Suc (Suc (Suc 0)))))))
       (rejecting_agent (requests_once NoFlightFound) reads_page)
       \<lparr>deps = requested, usage = 0\<rparr> (Some usage_limits) [UserPrompt None]
       (retries (rejecting_agent (requests_once NoFlightFound) reads_page))
       (snd (new_Usage (initial_world [])))
     = Some (Inl RetriesExhausted,
             [UserPrompt None,
              EngineTurn (CapabilityRequests [(''extract_flights'', [])]),
              CapabilityOutput ''extract_flights'' flights_web_page,
              EngineTurn (StructuredResult NoFlightFound), RetryFeedback ''rejected'',
              EngineTurn (StructuredResult NoFlightFound), RetryFeedback ''rejected'',
              EngineTurn (StructuredResult NoFlightFound), RetryFeedback ''rejected'',
              EngineTurn (StructuredResult NoFlightFound), RetryFeedback ''rejected''],
             \<lparr>usages = (\<lambda>r. 0)(0 := 7), allocated = 1,
              printed = [Found_flights 8], stdin = []\<rparr>)
   \<and> proposals
        [UserPrompt None,
         EngineTurn (CapabilityRequests [(''extract_flights'', [])]),
         CapabilityOutput ''extract_flights'' flights_web_page,
         EngineTurn (StructuredResult NoFlightFound), RetryFeedback ''rejected'',
         EngineTurn (StructuredResult NoFlightFound), RetryFeedback ''rejected'',
         EngineTurn (StructuredResult NoFlightFound), RetryFeedback ''rejected'',
         EngineTurn (StructuredResult NoFlightFound), RetryFeedback ''rejected''
           :: (search_result, FlightDetails list) turn_record] = 4
   \<and> (\<exists>h1 w1. turn_orchestrator 4 (search_agent (always (Flight listing_2)) reads_page)
         \<lparr>deps = requested, usage = 0\<rparr> (Some usage_limits)
         [UserPrompt (Some (search_prompt requested))] 4 (snd (new_Usage (initial_world [])))
       = Some (Inl RetriesExhausted, h1, w1) \<and> engine_turns h1 = 4)"
proof -
  let ?ag = "rejecting_agent (requests_once NoFlightFound) reads_page"
  let ?sg = "search_agent (always (Flight listing_2)) reads_page"
  let ?ctx = "\<lparr>deps = requested, usage = 0\<rparr> :: Deps RunContext"
  let ?w = "snd (new_Usage (initial_world []))"
  let ?h = "[UserPrompt None] :: search_history"
  let ?fuel = "Suc (Suc (Suc (Suc (Suc (Suc (Suc 0))))))"
  let ?H = "[UserPrompt None,
         EngineTurn (CapabilityRequests [(''extract_flights'', [])]),
         CapabilityOutput ''extract_flights'' flights_web_page,
         EngineTurn (StructuredResult NoFlightFound), RetryFeedback ''rejected'',
         EngineTurn (StructuredResult NoFlightFound), RetryFeedback ''rejected'',
         EngineTurn (StructuredResult NoFlightFound), RetryFeedback ''rejected'',
         EngineTurn (StructuredResult NoFlightFound), RetryFeedback ''rejected'']
           :: search_history"
  let ?W = "\<lparr>usages = (\<lambda>r. 0)(0 := 7::nat), allocated = 1,
              printed = [Found_flights 8], stdin = []\<rparr>"
  note t = always_retry_outcome_and_bound
    [where ag = ?ag and ctx = ?ctx and fuel = ?fuel and ceiling = "Some usage_limits"
       and h = ?h and w = ?w and res = "Inl RetriesExhausted" and h' = ?H and w' = ?W
       and k = 1 and ?f0.0 = 1]
  note s = always_retry_outcome_and_bound
    [where ag = ?sg and ctx = ?ctx and fuel = 4 and ceiling = "Some usage_limits"
       and h = "[UserPrompt (Some (search_prompt requested))]" and w = ?w and cost = 1]
  have r: "retries ?ag = 4"
    by (simp add: rejecting_agent_def)
  have run: "turn_orchestrator ?fuel ?ag ?ctx (Some usage_limits) ?h (retries ?ag) ?w
      = Some (Inl RetriesExhausted, ?H, ?W)"
    unfolding r by (rule rejected_after_one_capability_round)
  have val: "\<forall>c r. \<exists>m. result_validator ?ag c r = Inl (ModelRetry m)"
    by (simp add: rejecting_agent_def)
  have eng: "\<forall>h0 e. engine ?ag h0 = Inl e \<longrightarrow> e = EngineUnavailable"
    by (simp add: rejecting_agent_def requests_once_def)
  have "proposals ?H = proposals ?h + max (retries ?ag) 1"
    using t val eng run by blast
  then have p: "proposals ?H = 4"
    by (simp add: r)
  have rounds: "\<forall>h0 response. 1 \<le> capability_rounds h0 \<and> engine ?ag h0 = Inr response
            \<longrightarrow> (\<exists>r. variant response = StructuredResult r)"
    by (auto simp: rejecting_agent_def requests_once_def)
  have answer: "reads_page [UserPrompt (web_page_text (deps c))]
        = Inr \<lparr>variant = StructuredResult flights_web_page, usage_cost = 2\<rparr>" for c :: "Deps RunContext"
    by (simp add: reads_page_def)
  have handlers: "\<forall>name hdl fuel' c args w0. map_of (registry ?ag) name = Some hdl \<and> 1 \<le> fuel'
            \<longrightarrow> hdl fuel' c args w0 \<noteq> None"
  proof (intro allI impI)
    fix name hdl and fuel' :: nat and c args w0
    assume a: "map_of (registry ?ag) name = Some hdl \<and> 1 \<le> fuel'"
    then have hdl: "hdl = extract_flights reads_page"
      by (auto simp: rejecting_agent_def split: if_splits)
    from a obtain f where f: "fuel' = Suc f" by (cases fuel') auto
    show "hdl fuel' c args w0 \<noteq> None"
      unfolding hdl f
      using extract_flights_one_answer
        [where extraction = reads_page and ctx = c and fuel = f and args = args and w = w0,
          OF answer]
      by simp
  qed
  have enough: "1 + (1 - capability_rounds ?h) + retries ?ag + 1 \<le> ?fuel"
    by (simp add: r)
  have ends: "turn_orchestrator ?fuel ?ag ?ctx (Some usage_limits) ?h (retries ?ag) ?w \<noteq> None"
    using t rounds handlers enough by blast
  have rejected: "validate_result requested (Flight listing_2)
      = Inl (ModelRetry (str_join [CHR 0x0A] (validation_errors requested listing_2)))"
    by (simp add: validate_result_def validation_errors_order requested_def listing_2_def)
  have eng2: "\<forall>h0. \<exists>r c m. engine ?sg h0 = Inr \<lparr>variant = StructuredResult r, usage_cost = c\<rparr>
            \<and> c \<le> 1 \<and> result_validator ?sg ?ctx r = Inl (ModelRetry m)"
    by (simp add: search_agent_def always_def rejected)
  have r2: "retries ?sg = 4"
    by (simp add: search_agent_def)
  have room: "within_ceiling (Some usage_limits) (usages ?w (usage ?ctx) + retries ?sg * 1)"
    by (simp add: within_ceiling_def usage_limits_def new_Usage_def initial_world_def r2)
  have bounds: "1 \<le> retries ?sg" "retries ?sg \<le> 4"
    by (simp_all add: r2)
  have "\<exists>h1 w1. turn_orchestrator 4 ?sg ?ctx (Some usage_limits)
       [UserPrompt (Some (search_prompt requested))] (retries ?sg) ?w
     = Some (Inl RetriesExhausted, h1, w1)
     \<and> engine_turns h1 = engine_turns [UserPrompt (Some (search_prompt requested))] + retries ?sg"
    using s [THEN conjunct2, THEN conjunct2, THEN conjunct1] eng2 room r2 by simp
  then have old: "\<exists>h1 w1. turn_orchestrator 4 ?sg ?ctx (Some usage_limits)
       [UserPrompt (Some (search_prompt requested))] 4 ?w
     = Some (Inl RetriesExhausted, h1, w1) \<and> engine_turns h1 = 4"
    by (simp add: r2)
  from ends run p old show ?thesis
    by blast
qed

end
